theory Spec2Isabelle
  imports Complex_Main "HOL-Library.Word"
begin

unbundle bit_operations_syntax

section \<open>Double precision arithmetic\<close>

text \<open>
  The driver computes with C++ \<^verbatim>\<open>double\<close>. A finite double is a real number; an
  arithmetic operation on doubles yields the exact result rounded to the nearest number
  with a 53 bit significand, ties to even (IEEE 754 binary64, every operation rounded on
  its own). \<open>fl\<close> is that rounding, for the normal range, which no value of this
  driver leaves. Integer literals and conversions from 32 bit integers are exact.
\<close>

fun bitlen :: "nat \<Rightarrow> nat" where
  "bitlen n = (if n = 0 then 0 else Suc (bitlen (n div 2)))"

declare bitlen.simps [simp del]

definition ilog2 :: "real \<Rightarrow> int" where
  "ilog2 x = (if 1 \<le> x then int (bitlen (nat \<lfloor>x\<rfloor>)) - 1
              else - int (bitlen (nat (\<lceil>1 / x\<rceil> - 1))))"

definition rne :: "real \<Rightarrow> int" where
  "rne x = (let f = \<lfloor>x\<rfloor>; d = x - of_int f in
            if d < 1 / 2 then f else if 1 / 2 < d then f + 1
            else if even f then f else f + 1)"

definition pow2 :: "int \<Rightarrow> real" where
  "pow2 e = (if 0 \<le> e then 2 ^ nat e else 1 / 2 ^ nat (- e))"

definition fl :: "real \<Rightarrow> real" where
  "fl x = (if x = 0 then 0
           else let u = pow2 (ilog2 \<bar>x\<bar> - 52) in sgn x * (of_int (rne (\<bar>x\<bar> / u)) * u))"

lemmas fl_eval = fl_def ilog2_def bitlen.simps rne_def pow2_def Let_def

text \<open>
  Divisions in this driver can divide by zero, so a double is a finite number, an
  infinity or a NaN. A zero divisor is always the conversion of an unsigned integer,
  \<open>+0.0\<close>, which is why the sign of a zero is not tracked.
\<close>

datatype dbl = Fin real | PInf | NInf | NaN

fun dbl_add :: "dbl \<Rightarrow> dbl \<Rightarrow> dbl" where
  "dbl_add (Fin a) (Fin b) = Fin (fl (a + b))"
| "dbl_add NaN _ = NaN"
| "dbl_add _ NaN = NaN"
| "dbl_add PInf NInf = NaN"
| "dbl_add NInf PInf = NaN"
| "dbl_add PInf _ = PInf"
| "dbl_add _ PInf = PInf"
| "dbl_add NInf _ = NInf"
| "dbl_add _ NInf = NInf"

fun dbl_div :: "dbl \<Rightarrow> dbl \<Rightarrow> dbl" where
  "dbl_div (Fin a) (Fin b) =
     (if b = 0 then (if a = 0 then NaN else if 0 < a then PInf else NInf)
      else Fin (fl (a / b)))"
| "dbl_div NaN _ = NaN"
| "dbl_div _ NaN = NaN"
| "dbl_div (Fin a) _ = Fin 0"
| "dbl_div PInf (Fin b) = (if 0 \<le> b then PInf else NInf)"
| "dbl_div NInf (Fin b) = (if 0 \<le> b then NInf else PInf)"
| "dbl_div _ _ = NaN"

fun dbl_mul :: "dbl \<Rightarrow> dbl \<Rightarrow> dbl" where
  "dbl_mul (Fin a) (Fin b) = Fin (fl (a * b))"
| "dbl_mul NaN _ = NaN"
| "dbl_mul _ NaN = NaN"
| "dbl_mul (Fin a) PInf = (if a = 0 then NaN else if 0 < a then PInf else NInf)"
| "dbl_mul (Fin a) NInf = (if a = 0 then NaN else if 0 < a then NInf else PInf)"
| "dbl_mul PInf (Fin b) = (if b = 0 then NaN else if 0 < b then PInf else NInf)"
| "dbl_mul NInf (Fin b) = (if b = 0 then NaN else if 0 < b then NInf else PInf)"
| "dbl_mul PInf PInf = PInf"
| "dbl_mul NInf NInf = PInf"
| "dbl_mul _ _ = NInf"

text \<open>\<^verbatim>\<open>a < b\<close> on doubles: false as soon as one side is a NaN.\<close>

fun dbl_less :: "dbl \<Rightarrow> dbl \<Rightarrow> bool" where
  "dbl_less (Fin a) (Fin b) = (a < b)"
| "dbl_less NaN _ = False"
| "dbl_less _ NaN = False"
| "dbl_less _ NInf = False"
| "dbl_less PInf _ = False"
| "dbl_less _ _ = True"

text \<open>
  A conversion from double to an integer type truncates towards zero. Where the
  truncated value does not fit the target type (or the double is not finite) C++ gives
  the conversion no result; the model takes one from the environment (\<open>junk\<close>, any
  integer, reduced to the target type) and execution goes on.
\<close>

definition trunc :: "real \<Rightarrow> int" where
  "trunc r = (if 0 \<le> r then \<lfloor>r\<rfloor> else \<lceil>r\<rceil>)"

definition to_int32 :: "int \<Rightarrow> dbl \<Rightarrow> int" where
  "to_int32 junk x =
     (case x of
        Fin r \<Rightarrow> if - (2 ^ 31) \<le> trunc r \<and> trunc r < 2 ^ 31 then trunc r
                 else sint (word_of_int junk :: 32 word)
      | _ \<Rightarrow> sint (word_of_int junk :: 32 word))"

definition to_unsigned :: "nat \<Rightarrow> int \<Rightarrow> dbl \<Rightarrow> int" where
  "to_unsigned bits junk x =
     (case x of
        Fin r \<Rightarrow> if 0 \<le> trunc r \<and> trunc r < 2 ^ bits then trunc r else junk mod 2 ^ bits
      | _ \<Rightarrow> junk mod 2 ^ bits)"

section \<open>Voltage calibration (SQRLMiner.cpp, lines 172-206)\<close>

text \<open>
  \<^verbatim>\<open>VoltageTbl\<close> is a member array of 256 doubles, a function from the index to the
  reals here. \<^verbatim>\<open>InitVoltageTbl\<close> fills the entries 0..254 in its loop and entry 255 in a
  statement of its own, all by the same expression
  \<^verbatim>\<open>0.6 + (2.661 / (20 - (2048 / ((double)VID + 153.6))))\<close>.
\<close>

definition InitVoltageTbl :: "nat \<Rightarrow> real" where
  "InitVoltageTbl VID =
     fl (fl 0.6 + fl (fl 2.661 / fl (20 - fl (2048 / fl (real VID + fl 153.6)))))"

text \<open>
  The loop \<^verbatim>\<open>for(int half = 0x40; half > 0x00; half >>= 1)\<close> of
  \<^verbatim>\<open>FindClosestVIDToVoltage\<close>; \<^verbatim>\<open>idx\<close> is a \<^verbatim>\<open>uint8_t\<close>. The third branch of the source,
  \<^verbatim>\<open>else if(ReqVoltage == VoltageTbl[idx]) return(idx)\<close>, is the only case left for
  numbers that are neither smaller nor greater. The function returns \<^verbatim>\<open>idx\<close> after the
  last step without comparing the request with the entry it ends on.
\<close>

fun vid_search :: "(nat \<Rightarrow> real) \<Rightarrow> real \<Rightarrow> nat \<Rightarrow> 8 word \<Rightarrow> 8 word" where
  "vid_search tbl ReqVoltage half idx =
     (if 0 < half then
        (if ReqVoltage < tbl (unat idx) then vid_search tbl ReqVoltage (half div 2) (idx + of_nat half)
         else if ReqVoltage > tbl (unat idx) then vid_search tbl ReqVoltage (half div 2) (idx - of_nat half)
         else idx)
      else idx)"

declare vid_search.simps [simp del]

definition FindClosestVIDToVoltage :: "(nat \<Rightarrow> real) \<Rightarrow> real \<Rightarrow> 8 word" where
  "FindClosestVIDToVoltage tbl ReqVoltage =
     (if ReqVoltage \<le> tbl 0xFF then 0xFF
      else if ReqVoltage \<ge> tbl 0x00 then 0x00
      else vid_search tbl ReqVoltage 0x40 0x80)"

text \<open>A table is strictly decreasing on the indices 0..255.\<close>

definition strictly_decreasing :: "(nat \<Rightarrow> real) \<Rightarrow> bool" where
  "strictly_decreasing tbl = (\<forall>i<255. tbl (Suc i) < tbl i)"

section \<open>Register transport, environment and miner state\<close>

type_synonym u8 = "8 word"
type_synonym u32 = "32 word"
type_synonym u64 = "64 word"
type_synonym h256 = "256 word"

text \<open>
  What the driver does to the outside world, in program order: the calls of the register
  transport (\<^verbatim>\<open>SQRLAXI.h\<close>), of the access lock \<^verbatim>\<open>axiMutex\<close>, of the condition variable
  \<^verbatim>\<open>m_new_work_signal\<close> and of the collaborators (tuner, farm, the \<^verbatim>\<open>Miner\<close> base
  class). Log output and the durations measured for it are left out.
\<close>

datatype event =
    Read32 u32
  | Write32 u32 u32 bool
  | WriteBulk "u8 list" u32 bool
  | CDMACopyBytes u64 u64 u64
  | WaitForInterrupt u32 u32
  | KickInterrupts
  | Lock
  | Unlock
  | Sleep nat
  | NotifyOne
  | StartTune dbl
  | SubmitProof u64
  | UpdateHashRate u64
  | Tune u64

datatype irq_result = IrqOK u64 | IrqTimedOut | IrqError

text \<open>
  The environment answers every observation the driver makes. Each answer is a function
  of the history so far (the events up to and including the call that is answered), so
  that every behaviour of the device, of the other threads and of the clock is some
  environment:
  \<^item> \<open>rd\<close>: status and value of a \<^verbatim>\<open>SQRLAXIRead\<close>. When the status is a failure the value
    is what an uninitialised destination holds afterwards (anything); a destination
    that was initialised keeps its content, which is how the source uses the call
    (\<^verbatim>\<open>raw = 0x3; SQRLAXIRead(m_axi, &raw, 0x7008)\<close>, "Force calibrated if comms fail");
  \<^item> \<open>ok\<close>: status of a write, bulk write or copy;
  \<^item> \<open>irq\<close>: result of \<^verbatim>\<open>SQRLAXIWaitForInterrupt\<close>;
  \<^item> \<open>kick_pending\<close>: another thread has called \<^verbatim>\<open>kick_miner\<close> since \<^verbatim>\<open>m_new_work\<close>
    was last cleared; \<open>stop_requested\<close>: \<^verbatim>\<open>shouldStop()\<close>;
  \<^item> \<open>now\<close>: \<^verbatim>\<open>steady_clock::now()\<close> in nanoseconds (the second argument numbers the
    calls made at one point of the history);
  \<^item> \<open>junk\<close>: the result of a conversion that C++ leaves without one;
  \<^item> \<open>tuner_intensity\<close>: \<^verbatim>\<open>m_tuner->getIntensitySettings()\<close>, \<open>None\<close> when not set, else
    patience, intensityD, intensityN; \<open>tuner_error_rate\<close>: the float
    \<^verbatim>\<open>m_tuner->getHardwareErrorRate() * 100\<close>.
\<close>

record env =
  rd :: "event list \<Rightarrow> bool \<times> u32"
  ok :: "event list \<Rightarrow> bool"
  irq :: "event list \<Rightarrow> irq_result"
  kick_pending :: "event list \<Rightarrow> bool"
  stop_requested :: "event list \<Rightarrow> bool"
  now :: "event list \<Rightarrow> nat \<Rightarrow> int"
  junk :: "event list \<Rightarrow> nat \<Rightarrow> int"
  tuner_intensity :: "event list \<Rightarrow> (u32 \<times> u32 \<times> u32) option"
  tuner_error_rate :: "event list \<Rightarrow> dbl"

text \<open>
  The settings the modelled functions read (\<^verbatim>\<open>SQSettings\<close>; declared outside this file, the
  integer fields are taken as 32 bit unsigned) and the epoch context
  (\<^verbatim>\<open>dagSize\<close> and \<^verbatim>\<open>lightSize\<close> are 64 bit, as the 4 GiB copy of the DAG requires).
\<close>

record SQSettings =
  forceDAG :: bool
  skipDAG :: bool
  dieOnError :: bool
  skipStallDetection :: bool
  showHBMStats :: bool
  dagMixers :: u32
  workDelay :: u32

record EpochContext =
  epochNumber :: u32
  dagSize :: u64
  lightSize :: u64
  seed :: h256

record WorkPackage =
  header :: h256
  boundary :: h256
  startNonce :: u64

text \<open>
  The members of \<^verbatim>\<open>SQRLMiner\<close> that the modelled functions change, and the history.
  \<^verbatim>\<open>patience\<close>, \<^verbatim>\<open>intensityN\<close> and \<^verbatim>\<open>intensityD\<close> are the fields of \<^verbatim>\<open>m_settings\<close> that
  \<^verbatim>\<open>search\<close> overwrites.
\<close>

record miner =
  trace :: "event list"
  m_dagging :: bool
  m_new_work :: bool
  m_lastClk :: dbl
  patience :: u32
  intensityN :: u32
  intensityD :: u32
  m_hashCounter :: u64
  m_avgHashTimer :: int
  m_10minHashAvg :: "real list"
  m_60minHashAvg :: "real list"
  m_avgValues :: "dbl list"
  m_FPGAtemps :: "int list"

text \<open>How a function ends: it returns, or the process ends in \<^verbatim>\<open>exit(1)\<close>, or an integer
  division by zero traps.\<close>

datatype 'a outcome = Done 'a | Exited | Trapped

definition emit :: "event \<Rightarrow> miner \<Rightarrow> miner" where
  "emit e s = s\<lparr>trace := trace s @ [e]\<rparr>"

definition SQRLAXIRead :: "env \<Rightarrow> u32 \<Rightarrow> miner \<Rightarrow> (bool \<times> u32) \<times> miner" where
  "SQRLAXIRead e addr s = (rd e (trace s @ [Read32 addr]), emit (Read32 addr) s)"

definition SQRLAXIWrite :: "env \<Rightarrow> u32 \<Rightarrow> u32 \<Rightarrow> bool \<Rightarrow> miner \<Rightarrow> bool \<times> miner" where
  "SQRLAXIWrite e v addr verify s =
     (ok e (trace s @ [Write32 v addr verify]), emit (Write32 v addr verify) s)"

definition SQRLAXIWriteBulk :: "env \<Rightarrow> u8 list \<Rightarrow> u32 \<Rightarrow> bool \<Rightarrow> miner \<Rightarrow> bool \<times> miner" where
  "SQRLAXIWriteBulk e bytes addr flip s =
     (ok e (trace s @ [WriteBulk bytes addr flip]), emit (WriteBulk bytes addr flip) s)"

definition SQRLAXICDMACopyBytes :: "env \<Rightarrow> u64 \<Rightarrow> u64 \<Rightarrow> u64 \<Rightarrow> miner \<Rightarrow> bool \<times> miner" where
  "SQRLAXICDMACopyBytes e src dst len s =
     (ok e (trace s @ [CDMACopyBytes src dst len]), emit (CDMACopyBytes src dst len) s)"

text \<open>A write whose status the source ignores.\<close>

definition wr :: "env \<Rightarrow> u32 \<Rightarrow> u32 \<Rightarrow> bool \<Rightarrow> miner \<Rightarrow> miner" where
  "wr e v addr verify s = snd (SQRLAXIWrite e v addr verify s)"

section \<open>Stopping the hashing core (lines 213-245)\<close>

text \<open>
  The ramp \<^verbatim>\<open>while(inn > 0) { dbg = ...; SQRLAXIWrite(...); inn -= step; }\<close>. The step is
  \<^verbatim>\<open>ceil((double)inn / 8.0)\<close> of the first \<^verbatim>\<open>inn\<close>, positive whenever the loop is entered;
  the guard \<open>0 < step\<close> is what makes the recursion total and never cuts a run short.
\<close>

function ramp :: "env \<Rightarrow> int \<Rightarrow> int \<Rightarrow> u32 \<Rightarrow> miner \<Rightarrow> (int \<times> u32) \<times> miner" where
  "ramp e inn step dbg s =
     (if 0 < inn \<and> 0 < step then
        let dbg' = (dbg AND 0x00FFFFFF) OR push_bit 24 (word_of_int inn)
        in ramp e (inn - step) step dbg' (wr e dbg' 0x5080 False s)
      else ((inn, dbg), s))"
  by pat_completeness auto
termination
  by (relation "measure (\<lambda>(e, inn, step, dbg, s). nat inn)") auto

declare ramp.simps [simp del]

definition StopHashcore :: "env \<Rightarrow> bool \<Rightarrow> miner \<Rightarrow> bool \<times> miner" where
  "StopHashcore e soft s =
     (if soft then
        let ((err_ok, dbg), s1) = SQRLAXIRead e 0x5080 s;
            s2 = (if err_ok then
                    let inn = uint (drop_bit 24 dbg AND 0xFF);
                        step = \<lceil>real_of_int inn / 8\<rceil>;
                        ((inn', dbg'), s') = ramp e inn step dbg s1
                    in if inn' \<noteq> 0 then wr e (dbg' AND 0x00FFFFFF) 0x5080 False s' else s'
                  else s1)
        in SQRLAXIWrite e 0x0 0x506c False s2
      else SQRLAXIWrite e 0x0 0x506c False s)"

section \<open>Clock controller (lines 1001-1107)\<close>

text \<open>The voltage controlled oscillator frequency decoded from register 0x8200.\<close>

definition pll_vco :: "u32 \<Rightarrow> dbl" where
  "pll_vco valueVCO =
     (let mult = real (unat (drop_bit 8 valueVCO AND 0xFF));
          frac = (if drop_bit 16 valueVCO AND 0x2F \<noteq> 0
                  then fl (real (unat (drop_bit 16 valueVCO AND 0x3FF)) / 1000) else 0);
          gdiv = real (unat (valueVCO AND 0xF))
      in dbl_div (Fin (fl (200 * fl (mult + frac)))) (Fin gdiv))"

definition pll_clk0div :: "u32 \<Rightarrow> real" where
  "pll_clk0div valueClk0 =
     fl (real (unat (valueClk0 AND 0xF)) + fl (real (unat (drop_bit 8 valueClk0 AND 0x3FF)) / 1000))"

text \<open>
  \<^verbatim>\<open>desiredDiv = vco/(targetClk+1)\<close> and its adjustment
  \<^verbatim>\<open>((double)((int)(desiredDiv * 8 + 0.99))) / 8.0\<close>.
\<close>

definition desired_div :: "dbl \<Rightarrow> dbl \<Rightarrow> dbl" where
  "desired_div vco targetClk = dbl_div vco (dbl_add targetClk (Fin 1))"

definition adjusted_div :: "int \<Rightarrow> dbl \<Rightarrow> real" where
  "adjusted_div jnk desiredDiv =
     fl (real_of_int (to_int32 jnk (dbl_add (dbl_mul desiredDiv (Fin 8)) (Fin (fl 0.99)))) / 8)"

text \<open>
  \<^verbatim>\<open>newDiv = ((uint8_t)desiredDiv) | ((uint16_t)((desiredDiv-floor(desiredDiv))*1000.0) << 8)\<close>
\<close>

definition encode_div :: "int \<Rightarrow> int \<Rightarrow> real \<Rightarrow> u32" where
  "encode_div jnk1 jnk2 desiredDiv =
     word_of_int (to_unsigned 8 jnk1 (Fin desiredDiv))
     OR push_bit 8 (word_of_int
          (to_unsigned 16 jnk2 (Fin (fl (fl (desiredDiv - real_of_int \<lfloor>desiredDiv\<rfloor>) * 1000)))))"

text \<open>The loop \<^verbatim>\<open>while(waitCnt--)\<close> with \<^verbatim>\<open>waitCnt = 1000\<close>; the status of the read is
  ignored and \<^verbatim>\<open>locked\<close> is not initialised.\<close>

fun wait_locked :: "env \<Rightarrow> nat \<Rightarrow> miner \<Rightarrow> miner" where
  "wait_locked e 0 s = s"
| "wait_locked e (Suc n) s =
     (let ((_, locked), s1) = SQRLAXIRead e 0x8004 s
      in if locked AND 1 \<noteq> 0 then s1 else wait_locked e n s1)"

text \<open>The branch \<^verbatim>\<open>if (targetClk > 0)\<close>.\<close>

definition setClock_program :: "env \<Rightarrow> u32 \<Rightarrow> dbl \<Rightarrow> dbl \<Rightarrow> dbl \<Rightarrow> miner \<Rightarrow> dbl \<times> miner" where
  "setClock_program e valueVCO vco currentClk targetClk s =
     (let desiredDiv = adjusted_div (junk e (trace s) 0) (desired_div vco targetClk)
      in if desiredDiv < 2 then (currentClk, s)
         else
           let newDiv = encode_div (junk e (trace s) 1) (junk e (trace s) 2) desiredDiv;
               s1 = wr e valueVCO 0x8200 True s;
               s2 = wr e newDiv 0x8208 True s1;
               s3 = wr e 0x7 0x825c True s2;
               s4 = wr e 0x3 0x825c True s3;
               currentClk' = dbl_div vco (Fin desiredDiv)
           in (currentClk',
               s4\<lparr>m_lastClk := Fin (real_of_int (to_int32 (junk e (trace s4) 3) currentClk'))\<rparr>))"

text \<open>The branch \<^verbatim>\<open>else if (targetClk < -1.0)\<close>.\<close>

definition setClock_reset :: "env \<Rightarrow> miner \<Rightarrow> miner" where
  "setClock_reset e s =
     wr e 0xA 0x8000 True (emit (Sleep 10000) (wr e 0x1 0x825c True (wr e 0x5 0x825c True s)))"

definition setClock :: "env \<Rightarrow> dbl \<Rightarrow> miner \<Rightarrow> dbl \<times> miner" where
  "setClock e targetClk s =
     (let ((ok1, valueVCO), s1) = SQRLAXIRead e 0x8200 s in
      if \<not> ok1 then (Fin 0, s1)
      else
        let vco = pll_vco valueVCO;
            ((ok2, valueClk0), s2) = SQRLAXIRead e 0x8208 s1 in
        if \<not> ok2 then (Fin 0, s2)
        else
          let currentClk = dbl_div vco (Fin (pll_clk0div valueClk0)) in
          if targetClk = Fin (- 1) then (currentClk, s2)
          else
            let ((ok3, v3), s3) = SQRLAXIRead e 0x5040 s2;
                nItems = (if ok3 then v3 else 0);
                ((_, v4), s4) = SQRLAXIRead e 0x5088 s3;
                rnItems = (if ok3 then v4 else 0);
                ((_, v5), s5) = SQRLAXIRead e 0xB000 s4;
                daggenPwrState = (if ok3 then v5 else 0);
                s6 = wr e 0xFFFFFFFF 0xB000 True s5;
                (clk, s7) =
                  (if dbl_less (Fin 0) targetClk
                   then setClock_program e valueVCO vco currentClk targetClk s6
                   else if dbl_less targetClk (Fin (- 1)) then (currentClk, setClock_reset e s6)
                   else (currentClk, s6));
                s8 = wait_locked e 1000 s7;
                s9 = wr e nItems 0x5040 True s8;
                s10 = wr e rnItems 0x5088 True s9;
                s11 = wr e daggenPwrState 0xB000 True s10
            in (clk, s11))"

definition getClock :: "env \<Rightarrow> miner \<Rightarrow> dbl \<times> miner" where
  "getClock e s = setClock e (Fin (- 1)) s"

section \<open>Waking the worker and telemetry (lines 728-740, 1109-1188)\<close>

definition kick_miner :: "miner \<Rightarrow> miner" where
  "kick_miner s =
     (let s1 = s\<lparr>m_new_work := True\<rparr>;
          s2 = (if \<not> m_dagging s1 then emit KickInterrupts s1 else s1)
      in emit NotifyOne s2)"

text \<open>The fields of the packed stack health word read from register 0x7008.\<close>

definition leftCalibrated :: "u32 \<Rightarrow> bool" where
  "leftCalibrated raw = (drop_bit 0 raw AND 1 \<noteq> 0)"

definition rightCalibrated :: "u32 \<Rightarrow> bool" where
  "rightCalibrated raw = (drop_bit 1 raw AND 1 \<noteq> 0)"

definition leftCatastrophic :: "u32 \<Rightarrow> bool" where
  "leftCatastrophic raw = (drop_bit 2 raw AND 1 \<noteq> 0)"

definition rightCatastrophic :: "u32 \<Rightarrow> bool" where
  "rightCatastrophic raw = (drop_bit 10 raw AND 1 \<noteq> 0)"

definition leftTemp :: "u32 \<Rightarrow> u8" where
  "leftTemp raw = ucast (drop_bit 3 raw AND 0x7f)"

definition rightTemp :: "u32 \<Rightarrow> u8" where
  "rightTemp raw = ucast (drop_bit 11 raw AND 0x7f)"

text \<open>The body of the final \<^verbatim>\<open>if\<close> of \<^verbatim>\<open>getTelemetry\<close> (lines 1175-1186).\<close>

definition emergency_stop :: "env \<Rightarrow> miner \<Rightarrow> miner" where
  "emergency_stop e s =
     (let (_, s1) = StopHashcore e True s;
          s2 = wr e 0x0 0xB000 True s1;
          s3 = s2\<lparr>m_dagging := True\<rparr>
      in kick_miner s3)"

text \<open>
  Everything of \<^verbatim>\<open>getTelemetry\<close> after the read of register 0x7008 and the unlock, as a
  function of the word \<^verbatim>\<open>raw\<close> that is decoded; \<open>tempC\<close> is the value written through
  the first pointer.
\<close>

definition telemetry_decode :: "env \<Rightarrow> u32 \<Rightarrow> u32 \<Rightarrow> miner \<Rightarrow> miner" where
  "telemetry_decode e tempC raw s =
     (let s1 = s\<lparr>m_FPGAtemps := [sint tempC, uint (leftTemp raw), uint (rightTemp raw)]\<rparr>
      in if leftCatastrophic raw \<or> rightCatastrophic raw
            \<or> \<not> leftCalibrated raw \<or> \<not> rightCalibrated raw
         then emergency_stop e s1 else s1)"

text \<open>
  The reads of \<^verbatim>\<open>getTelemetry\<close>: the state after the unlock, the three values written
  through the pointers, and \<^verbatim>\<open>raw\<close>. \<^verbatim>\<open>raw\<close> is set to 0x3 before the read of 0x7008 and
  keeps that value when the read fails.
\<close>

definition telemetry_read :: "env \<Rightarrow> miner \<Rightarrow> ((u32 \<times> u32 \<times> u32) \<times> u32) \<times> miner" where
  "telemetry_read e s =
     (let s1 = emit Lock s;
          ((okT, rawT), s2) = SQRLAXIRead e 0x3400 s1;
          tempC = (if okT
                   then word_of_int (to_unsigned 32 (junk e (trace s2) 0)
                          (Fin (fl (fl (fl (real (unat rawT) * fl 507.6) / 65536) - fl 279.43))))
                   else 0);
          (clk, s3) = getClock e s2;
          fanprct = word_of_int (to_unsigned 32 (junk e (trace s3) 0) clk);
          ((okP, rawP), s4) = SQRLAXIRead e 0x3404 s3;
          powerW = (if okP
                    then word_of_int (to_unsigned 32 (junk e (trace s4) 0)
                           (Fin (fl (fl (fl (real (unat rawP) * 3) / 65536) * 1000))))
                    else 0);
          ((okH, rawH), s5) = SQRLAXIRead e 0x7008 s4;
          raw = (if okH then rawH else 0x3);
          s6 = emit Unlock s5
      in (((tempC, fanprct, powerW), raw), s6))"

definition getTelemetry :: "env \<Rightarrow> miner \<Rightarrow> (u32 \<times> u32 \<times> u32) \<times> miner" where
  "getTelemetry e s =
     (let (((tempC, fanprct, powerW), raw), s1) = telemetry_read e s
      in ((tempC, fanprct, powerW), telemetry_decode e tempC raw s1))"

section \<open>Hashrate averages (lines 959-999)\<close>

text \<open>
  \<^verbatim>\<open>std::accumulate(v.begin(), v.end(), 0.0) / v.size()\<close>; of an empty vector it is
  \<^verbatim>\<open>0.0 / 0\<close>, a NaN.
\<close>

definition average :: "real list \<Rightarrow> dbl" where
  "average v = dbl_div (Fin (foldl (\<lambda>a x. fl (a + x)) 0 v)) (Fin (real (length v)))"

text \<open>
  \<^verbatim>\<open>duration_cast<seconds>\<close> of a difference of time points in nanoseconds truncates
  towards zero.
\<close>

definition elapsed_seconds :: "int \<Rightarrow> int \<Rightarrow> int" where
  "elapsed_seconds t1 t0 = (if t0 \<le> t1 then (t1 - t0) div 1000000000
                            else - ((t0 - t1) div 1000000000))"

text \<open>
  \<^verbatim>\<open>double avg1min = (m_hashCounter / 60) / pow(10, 6)\<close>: the counter is an unsigned 64 bit
  integer, the first division is an integer division, its quotient is converted to
  double and divided by 1000000.0.
\<close>

definition avg1min_of :: "u64 \<Rightarrow> real" where
  "avg1min_of counter = fl (fl (real (unat (counter div 60))) / 1000000)"

definition processHashrateAverages :: "env \<Rightarrow> u64 \<Rightarrow> miner \<Rightarrow> miner" where
  "processHashrateAverages e newTcks s =
     (let s1 = s\<lparr>m_hashCounter := m_hashCounter s + newTcks\<rparr>;
          elapsedSeconds = elapsed_seconds (now e (trace s1) 0) (m_avgHashTimer s1)
      in if elapsedSeconds > 60 then
           let avg1min = avg1min_of (m_hashCounter s1);
               errorRate = tuner_error_rate e (trace s1);
               accept = (avg1min > 10 \<and> avg1min < 100);
               v10 = (if accept then m_10minHashAvg s1 @ [avg1min] else m_10minHashAvg s1);
               v60 = (if accept then m_60minHashAvg s1 @ [avg1min] else m_60minHashAvg s1);
               v10' = (if length v10 > 10 then tl v10 else v10);
               v60' = (if length v60 > 60 then tl v60 else v60)
           in s1\<lparr>m_10minHashAvg := v10', m_60minHashAvg := v60',
                 m_avgValues := [Fin avg1min, average v10', average v60', errorRate],
                 m_avgHashTimer := now e (trace s1) 1, m_hashCounter := 0\<rparr>
         else s1)"

section \<open>Search (lines 743-958)\<close>

text \<open>
  A \<^verbatim>\<open>h256\<close> is 32 bytes; its comparison operators compare the bytes from the first to
  the last, which is the order of the 256 bit numbers whose most significant byte is the
  first. \<^verbatim>\<open>data()\<close> gives the bytes in that order.
\<close>

definition h256_data :: "h256 \<Rightarrow> u8 list" where
  "h256_data x = map (\<lambda>i. ucast (drop_bit (8 * (31 - i)) x)) [0..<32]"

definition falseTarget_floor :: h256 where
  "falseTarget_floor = 0x0000001fffffffffffffffffffffffffffffffffffffffffffffffffffffffff"

text \<open>
  \<^verbatim>\<open>auto falseTarget = h256("0x0000001f..."); if (w.boundary > falseTarget) falseTarget = w.boundary;\<close>
\<close>

definition falseTarget :: "h256 \<Rightarrow> h256" where
  "falseTarget bnd = (if bnd > falseTarget_floor then bnd else falseTarget_floor)"

definition search_flags :: "u32 \<Rightarrow> u32 \<Rightarrow> u32 \<Rightarrow> u32" where
  "search_flags pat inN inD =
     (let flags0 = (if pat \<noteq> 0 then push_bit 6 1 OR push_bit 8 (pat AND 0xff) else 0)
      in if inN \<noteq> 0
         then (flags0 OR 1 OR push_bit 24 (inN AND 0xFF)) OR push_bit 16 ((inD AND 0x3F) * 8 - 1)
         else flags0)"

text \<open>The part of \<^verbatim>\<open>search\<close> before its loop (lines 749-809).\<close>

definition search_entry :: "env \<Rightarrow> SQSettings \<Rightarrow> WorkPackage \<Rightarrow> miner \<Rightarrow> unit outcome \<times> miner" where
  "search_entry e cfg w s =
     (let nonce = startNonce w;
          s1 = emit Lock (s\<lparr>m_new_work := False\<rparr>);
          (_, s2) = SQRLAXIWriteBulk e (h256_data (header w)) 0x5000 True s1;
          (_, s3) = SQRLAXIWriteBulk e (h256_data (falseTarget (boundary w))) 0x5020 True s2;
          s4 = wr e (ucast (drop_bit 32 nonce)) 0x5068 False s3;
          s5 = wr e (ucast (nonce AND 0xFFFFFFFF)) 0x5064 False s4;
          s6 = (case tuner_intensity e (trace s5) of
                  None \<Rightarrow> s5
                | Some (p, d, n) \<Rightarrow> s5\<lparr>patience := p, intensityD := d, intensityN := n\<rparr>);
          flags = search_flags (patience s6) (intensityN s6) (intensityD s6);
          (okf, s7) = SQRLAXIWrite e flags 0x5080 False s6
      in if \<not> okf \<and> dieOnError cfg then (Exited, s7)
         else (Done (), wr e 0x00010001 0x506c False s7))"

text \<open>
  One pass through the body of \<^verbatim>\<open>while (true)\<close> (lines 815-952), with the loop variables
  \<^verbatim>\<open>lastSCnt\<close> and \<^verbatim>\<open>lastTChecks\<close>: the loop goes on with new values of the two, is left
  by a \<^verbatim>\<open>break\<close>, or the process exits. The legacy polling branch under \<^verbatim>\<open>if (0)\<close> is
  dead code. With stall detection skipped \<^verbatim>\<open>sCnt\<close> is never written.
\<close>

datatype iter_result = Next u32 u64 | Leave | Die

definition target_checks :: "u32 \<Rightarrow> u32 \<Rightarrow> u64 \<Rightarrow> u64 \<times> u64" where
  "target_checks tChkLo tChkHi lastTChecks =
     (let tChks = push_bit 32 (ucast tChkHi) + ucast tChkLo
      in if \<not> (tChkLo = 0 \<and> tChkHi = 0) then
           let tChks' = (if tChks < lastTChecks
                         then push_bit 32 (ucast (tChkHi + 1)) + ucast tChkLo else tChks)
           in (tChks', tChks' - lastTChecks)
         else (tChks, 0))"

definition search_iter :: "env \<Rightarrow> SQSettings \<Rightarrow> u32 \<Rightarrow> u64 \<Rightarrow> miner \<Rightarrow> iter_result \<times> miner" where
  "search_iter e cfg lastSCnt lastTChecks s =
     (if m_new_work s \<or> kick_pending e (trace s) then (Leave, s\<lparr>m_new_work := False\<rparr>)
      else if stop_requested e (trace s) then (Leave, s)
      else
        let s1 = emit Unlock s;
            s2 = emit (WaitForInterrupt 1 (workDelay cfg div 1000)) s1;
            axiRes = irq e (trace s2)
        in if axiRes = IrqError \<and> dieOnError cfg then (Die, s2)
           else
             let s3 = emit Lock s2;
                 (sCnt, s4) =
                   (if \<not> skipStallDetection cfg then
                      let ((oks, v), s') = SQRLAXIRead e 0x5084 s3 in (if oks then v else 0, s')
                    else (word_of_int (junk e (trace s3) 0), s3));
                 ((okl, vl), s5) = SQRLAXIRead e 0x5048 s4;
                 tChkLo = (if okl then vl else 0);
                 ((okh, vh), s6) = SQRLAXIRead e 0x5044 s5;
                 tChkHi = (if okh then vh else 0);
                 (tChks, newTChks) = target_checks tChkLo tChkHi lastTChecks;
                 shouldReset = (\<not> skipStallDetection cfg \<and> sCnt = lastSCnt);
                 s7 = (case axiRes of IrqOK n \<Rightarrow> emit (SubmitProof n) s6 | _ \<Rightarrow> s6);
                 s8 = emit (UpdateHashRate newTChks) s7;
                 s9 = emit (Tune newTChks) s8;
                 s10 = processHashrateAverages e newTChks s9
             in (if shouldReset then Leave else Next sCnt tChks, s10))"




section \<open>Epoch change and DAG generation (lines 478-718)\<close>

text \<open>
  \<^verbatim>\<open>double reciprical = 1.0/(double)nItems * 0x1000000000000000ULL;\<close>
  \<^verbatim>\<open>uint32_t intR = (uint64_t)reciprical >> 4ULL;\<close>
\<close>

definition intR :: "int \<Rightarrow> u32 \<Rightarrow> u32" where
  "intR jnk nItems =
     (let reciprical = dbl_mul (dbl_div (Fin 1) (Fin (real (unat nItems)))) (Fin (2 ^ 60))
      in ucast (drop_bit 4 (word_of_int (to_unsigned 64 jnk reciprical) :: u64)))"

definition nItems_of :: "EpochContext \<Rightarrow> u32" where
  "nItems_of ctx = ucast (dagSize ctx div 128)"

definition program_mining_parameters :: "env \<Rightarrow> EpochContext \<Rightarrow> miner \<Rightarrow> miner" where
  "program_mining_parameters e ctx s =
     (let s1 = wr e (nItems_of ctx) 0x5040 True s
      in wr e (intR (junk e (trace s1) 0) (nItems_of ctx)) 0x5088 True s1)"

text \<open>
  \<^verbatim>\<open>uint32_t mixer_size = m_epochContext.dagSize/64/num_mixers;\<close>
  \<^verbatim>\<open>uint32_t leftover = (m_epochContext.dagSize/64 - mixer_size*num_mixers);\<close>
  The product is a product of two \<^verbatim>\<open>uint32_t\<close>.
\<close>

definition mixer_size :: "u64 \<Rightarrow> u32 \<Rightarrow> u32" where
  "mixer_size dag_size num_mixers = ucast ((dag_size div 64) div ucast num_mixers)"

definition leftover :: "u64 \<Rightarrow> u32 \<Rightarrow> u32" where
  "leftover dag_size num_mixers =
     ucast (dag_size div 64 - ucast (mixer_size dag_size num_mixers * num_mixers))"

text \<open>
  The loop \<^verbatim>\<open>for(uint32_t i=0; i < num_mixers; i++)\<close> (lines 625-633): the ranges it
  computes, with \<open>n\<close> passes to go, and the two writes it makes for each.
\<close>

fun mixer_ranges :: "u32 \<Rightarrow> u32 \<Rightarrow> nat \<Rightarrow> u32 \<Rightarrow> u32 \<Rightarrow> (u32 \<times> u32) list" where
  "mixer_ranges msize lo 0 i dagPos = []"
| "mixer_ranges msize lo (Suc n) i dagPos =
     (let mixer_start = dagPos;
          mixer_end = (if i = 0 then dagPos + msize + lo else dagPos + msize)
      in (mixer_start, mixer_end) # mixer_ranges msize lo n (i + 1) mixer_end)"

fun program_mixers :: "env \<Rightarrow> (u32 \<times> u32) list \<Rightarrow> u32 \<Rightarrow> miner \<Rightarrow> miner" where
  "program_mixers e [] i s = s"
| "program_mixers e ((mixer_start, mixer_end) # rs) i s =
     program_mixers e rs (i + 1)
       (wr e mixer_end (0x4010 + 8 * i) True (wr e mixer_start (0x400c + 8 * i) True s))"

text \<open>
  The two polling loops. The lock is released around the sleep; a failed read leaves the
  status word as it was.
\<close>

partial_function (option) wait_cache ::
  "env \<Rightarrow> SQSettings \<Rightarrow> u32 \<Rightarrow> miner \<Rightarrow> (unit outcome \<times> miner) option" where
  "wait_cache e cfg cstatus s =
     (if cstatus AND 2 = 2 then Some (Done (), s)
      else
        let s1 = emit Lock (emit (Sleep 100000) (emit Unlock s));
            ((okr, v), s2) = SQRLAXIRead e 0x40BC s1
        in if \<not> okr \<and> dieOnError cfg then Some (Exited, s2)
           else wait_cache e cfg (if okr then v else cstatus) s2)"

partial_function (option) wait_dag ::
  "env \<Rightarrow> SQSettings \<Rightarrow> u32 \<Rightarrow> u8 \<Rightarrow> miner \<Rightarrow> (unit outcome \<times> miner) option" where
  "wait_dag e cfg status cnt s =
     (if status AND 2 = 2 then Some (Done (), s)
      else
        let s1 = emit Lock (emit (Sleep 1000000) (emit Unlock s));
            ((okr, v), s2) = SQRLAXIRead e 0x4000 s1
        in if \<not> okr \<and> dieOnError cfg then Some (Exited, s2)
           else
             let s3 = (if unat (cnt + 1) mod 5 = 0 then snd (SQRLAXIRead e 0x4008 s2) else s2)
             in wait_dag e cfg (if okr then v else status) (cnt + 1) s3)"

text \<open>
  The duplication loop \<^verbatim>\<open>for(uint64_t i=0; i < 256; i++)\<close> with its \<^verbatim>\<open>break\<close> on the first
  failed copy; the result says whether the last copy made succeeded.
\<close>

fun swizzle :: "env \<Rightarrow> nat \<Rightarrow> u64 \<Rightarrow> miner \<Rightarrow> bool \<times> miner" where
  "swizzle e 0 i s = (True, s)"
| "swizzle e (Suc n) i s =
     (let src = 0x100000000 OR push_bit 24 i;
          dst = push_bit 24 (push_bit 4 (i AND 0x0f) OR drop_bit 4 (i AND 0xF0));
          (okc, s1) = SQRLAXICDMACopyBytes e src dst 0x1000000 s
      in if \<not> okc then (False, s1) else swizzle e n (i + 1) s1)"

text \<open>Lines 486-510: up to the two mining parameters.\<close>

definition initEpoch_prepare :: "env \<Rightarrow> EpochContext \<Rightarrow> miner \<Rightarrow> miner" where
  "initEpoch_prepare e ctx s =
     (let (_, s1) = setClock e (Fin (- 2)) (s\<lparr>m_dagging := True\<rparr>);
          s2 = emit Lock s1;
          (_, s3) = StopHashcore e True s2;
          s4 = wr e 0xFFFFFFFF 0xB000 True s3;
          s5 = wr e 0x2 0x4000 True s4
      in program_mining_parameters e ctx s5)"

text \<open>Lines 522-531: the early return.\<close>

definition initEpoch_fast :: "env \<Rightarrow> miner \<Rightarrow> miner" where
  "initEpoch_fast e s =
     (let s1 = wr e 0x0 0xB000 True s;
          s2 = emit Unlock (s1\<lparr>m_dagging := False\<rparr>);
          (_, s3) = setClock e (m_lastClk s2) s2
      in emit (StartTune (m_lastClk s3)) s3)"

text \<open>
  Lines 535-717: the generation. \<^verbatim>\<open>makeCacheOnChip\<close> is the constant \<^verbatim>\<open>true\<close>, the upload
  branch is dead code. \<^verbatim>\<open>status\<close> is not initialised before its first read.
\<close>

definition initEpoch_finish :: "env \<Rightarrow> EpochContext \<Rightarrow> miner \<Rightarrow> miner" where
  "initEpoch_finish e ctx s =
     (let (all_ok, s1) = swizzle e 256 0 s;
          s2 = (if all_ok
                then snd (SQRLAXICDMACopyBytes e 0x0 0x100000000 (4 * 1024 * 1024 * 1024) s1)
                else s1);
          s3 = wr e (push_bit 31 1 OR epochNumber ctx) 0x40B8 True s2;
          s4 = wr e 0x0 0xB000 True (s3\<lparr>m_dagging := False\<rparr>);
          s5 = (if m_lastClk s4 \<noteq> Fin 0 then snd (setClock e (m_lastClk s4) s4) else s4);
          s6 = emit Unlock s5
      in emit (StartTune (m_lastClk s6)) s6)"

definition initEpoch_generate ::
  "env \<Rightarrow> SQSettings \<Rightarrow> EpochContext \<Rightarrow> miner \<Rightarrow> (bool outcome \<times> miner) option" where
  "initEpoch_generate e cfg ctx s =
     (let s1 = wr e 0xFFFFFFFF 0xB000 True (wr e 0xFFFFFFFD 0xB000 True s);
          (curClk, s2) = getClock e s1;
          (_, s3) = (if dbl_less curClk (m_lastClk s2) then setClock e (Fin (- 2)) s2
                     else setClock e (m_lastClk s2) s2);
          num_parent_nodes = (ucast (lightSize ctx div 64) :: u32);
          s4 = wr e num_parent_nodes 0x4008 True (wr e 0x2 0x40BC True s3);
          revSeed = map (\<lambda>k. h256_data (seed ctx) ! (31 - k)) [0..<32];
          (_, s5) = SQRLAXIWriteBulk e revSeed 0x40c0 True s4;
          s6 = wr e 0x1 0x40BC True s5
      in case wait_cache e cfg 0 s6 of
           None \<Rightarrow> None
         | Some (Exited, s7) \<Rightarrow> Some (Exited, s7)
         | Some (Trapped, s7) \<Rightarrow> Some (Trapped, s7)
         | Some (Done _, s7) \<Rightarrow>
             let num_mixers = dagMixers cfg in
             if num_mixers = 0 then Some (Trapped, s7)
             else
               let msize = mixer_size (dagSize ctx) num_mixers;
                   lo = leftover (dagSize ctx) num_mixers;
                   s8 = wr e num_parent_nodes 0x4008 True s7;
                   s9 = program_mixers e (mixer_ranges msize lo (unat num_mixers) 0 0) 0 s8;
                   s10 = wr e 0x1 0x4000 True s9;
                   ((_, status), s11) = SQRLAXIRead e 0x4000 s10
               in case (if \<not> skipDAG cfg then wait_dag e cfg status 0 s11
                        else Some (Done (), s11)) of
                    None \<Rightarrow> None
                  | Some (Exited, s12) \<Rightarrow> Some (Exited, s12)
                  | Some (Trapped, s12) \<Rightarrow> Some (Trapped, s12)
                  | Some (Done _, s12) \<Rightarrow> Some (Done True, initEpoch_finish e ctx s12))"

definition initEpoch_internal ::
  "env \<Rightarrow> SQSettings \<Rightarrow> EpochContext \<Rightarrow> miner \<Rightarrow> (bool outcome \<times> miner) option" where
  "initEpoch_internal e cfg ctx s =
     (let s1 = initEpoch_prepare e ctx s;
          ((okd, v), s2) = SQRLAXIRead e 0x40B8 s1;
          dagStatusWord = (if okd then v else 0)
      in if drop_bit 31 dagStatusWord \<noteq> 0 \<and> \<not> forceDAG cfg
            \<and> dagStatusWord AND 0xFFFF = epochNumber ctx
         then Some (Done True, initEpoch_fast e s2)
         else initEpoch_generate e cfg ctx s2)"

section \<open>Concrete inputs\<close>

text \<open>
  A device whose every read succeeds with the value \<open>v\<close> and whose every write
  succeeds; no interrupt, no kick, no stop request; a clock that stands still.
\<close>

definition const_env :: "u32 \<Rightarrow> env" where
  "const_env v =
     \<lparr>rd = (\<lambda>_. (True, v)), ok = (\<lambda>_. True), irq = (\<lambda>_. IrqTimedOut),
      kick_pending = (\<lambda>_. False), stop_requested = (\<lambda>_. False), now = (\<lambda>_ _. 0),
      junk = (\<lambda>_ _. 0), tuner_intensity = (\<lambda>_. None), tuner_error_rate = (\<lambda>_. Fin 0)\<rparr>"

text \<open>A device none of whose reads succeeds.\<close>

definition dead_env :: env where
  "dead_env = (const_env 0)\<lparr>rd := (\<lambda>_. (False, 0))\<rparr>"

definition miner0 :: miner where
  "miner0 =
     \<lparr>trace = [], m_dagging = False, m_new_work = False, m_lastClk = Fin 0,
      patience = 0, intensityN = 0, intensityD = 0, m_hashCounter = 0, m_avgHashTimer = 0,
      m_10minHashAvg = [], m_60minHashAvg = [], m_avgValues = [], m_FPGAtemps = []\<rparr>"

definition cfg0 :: SQSettings where
  "cfg0 =
     \<lparr>forceDAG = False, skipDAG = False, dieOnError = False, skipStallDetection = False,
      showHBMStats = False, dagMixers = 3, workDelay = 100000\<rparr>"

definition ctx_of :: "u32 \<Rightarrow> u64 \<Rightarrow> EpochContext" where
  "ctx_of epoch dag_size = \<lparr>epochNumber = epoch, dagSize = dag_size, lightSize = 0, seed = 0\<rparr>"


text \<open>A work package with the hardest boundary but one.\<close>

definition wp0 :: WorkPackage where
  "wp0 = \<lparr>header = 0, boundary = 1, startNonce = 0\<rparr>"


section \<open>A bounded history of samples\<close>


section \<open>Strictness of a boundary\<close>

text \<open>
  A nonce is a solution when its hash is not greater than the boundary. Of two
  boundaries the stricter one is the one fewer hashes meet, the smaller number (the
  higher difficulty).
\<close>

definition stricter :: "h256 \<Rightarrow> h256 \<Rightarrow> h256" where
  "stricter a b = min a b"

section \<open>Histories\<close>

text \<open>
  The history of \<open>s'\<close> continues that of \<open>s\<close>, and every event that was added
  satisfies \<open>P\<close>.
\<close>

definition appends :: "(event \<Rightarrow> bool) \<Rightarrow> miner \<Rightarrow> miner \<Rightarrow> bool" where
  "appends P s s' =
     (take (length (trace s)) (trace s') = trace s
      \<and> list_all P (drop (length (trace s)) (trace s')))"


fun clock_event :: "event \<Rightarrow> bool" where
  "clock_event (Read32 a) = (a \<in> {0x8200, 0x8208, 0x5040, 0x5088, 0xB000, 0x8004})"
| "clock_event (Write32 v a vf) =
     (a \<in> {0xB000, 0x8200, 0x8208, 0x825c, 0x8000, 0x5040, 0x5088} \<and> vf)"
| "clock_event (Sleep n) = True"
| "clock_event _ = False"


text \<open>
  The writes that generate a DAG: the start command of the generator (1 to 0x4000), a
  write into the generator's parameter block 0x4008..0x40FF (parent node count, mixer
  ranges, persisted status, light cache control), the upload of the seed, and a copy of
  the duplication.
\<close>

fun generation_write :: "event \<Rightarrow> bool" where
  "generation_write (Write32 v a vf) =
     (a = 0x4000 \<and> v = 1 \<or> 0x4008 \<le> a \<and> a < 0x4100)"
| "generation_write (WriteBulk bs a f) = (a = 0x40c0)"
| "generation_write (CDMACopyBytes src dst len) = True"
| "generation_write _ = False"


section \<open>Passes of the search loop\<close>




section \<open>Natural number view of the mixer ranges\<close>

text \<open>
  The ranges of the partition loop computed in the natural numbers, without the
  wrap-around of \<^verbatim>\<open>uint32_t\<close>: \<open>q\<close> items for each mixer and \<open>r\<close> more for mixer 0.
\<close>

fun ranges_nat :: "nat \<Rightarrow> nat \<Rightarrow> nat \<Rightarrow> nat \<Rightarrow> nat \<Rightarrow> (nat \<times> nat) list" where
  "ranges_nat q r 0 k p = []"
| "ranges_nat q r (Suc m) k p =
     (p, if k = 0 then p + q + r else p + q)
       # ranges_nat q r m (Suc k) (if k = 0 then p + q + r else p + q)"

text \<open>The writes of \<^verbatim>\<open>program_mixers\<close>, in order.\<close>

fun mixer_writes :: "(u32 \<times> u32) list \<Rightarrow> u32 \<Rightarrow> event list" where
  "mixer_writes [] i = []"
| "mixer_writes ((a, b) # rs) i =
     Write32 a (0x400c + 8 * i) True # Write32 b (0x4010 + 8 * i) True # mixer_writes rs (i + 1)"

section \<open>The rounding, on known values\<close>

text \<open>
  The doubles nearest to 0.1 and to 1/3 (0x3FB999999999999A and 0x3FD5555555555555), a
  tie that goes to the even significand, and numbers that are doubles already.
\<close>

lemma fl_one_tenth: "fl (1 / 10) = 3602879701896397 / 2 ^ 55"
  by (simp add: fl_eval)

lemma fl_one_third: "fl (1 / 3) = 6004799503160661 / 2 ^ 54"
  by (simp add: fl_eval)

lemma fl_tie_to_even: "fl (2 ^ 53 + 1) = 2 ^ 53" "fl (2 ^ 53 + 3) = 2 ^ 53 + 4"
  by (simp_all add: fl_eval)

lemma fl_exact: "fl 1600 = 1600" "fl (27 / 8) = 27 / 8" "fl (- 279) = - 279"
  by (simp_all add: fl_eval)

section \<open>Properties of the voltage search\<close>

lemma strictly_decreasing_less:
  assumes "strictly_decreasing tbl" and "i < j" and "j \<le> 255"
  shows "tbl j < tbl i"
  using assms(2,3)
proof (induction j)
  case 0
  then show ?case by simp
next
  case (Suc j)
  have step: "tbl (Suc j) < tbl j"
    using assms(1) Suc.prems(2) by (simp add: strictly_decreasing_def)
  show ?case
  proof (cases "i = j")
    case True
    with step show ?thesis by simp
  next
    case False
    with Suc.prems have "i < j" "j \<le> 255" by simp_all
    with Suc.IH step show ?thesis by simp
  qed
qed

lemma FindClosestVID_clamp_low:
  "v \<le> tbl 255 \<Longrightarrow> FindClosestVIDToVoltage tbl v = 255"
  by (simp add: FindClosestVIDToVoltage_def)

lemma FindClosestVID_clamp_high:
  "tbl 255 < v \<Longrightarrow> tbl 0 \<le> v \<Longrightarrow> FindClosestVIDToVoltage tbl v = 0"
  by (simp add: FindClosestVIDToVoltage_def)

text \<open>
  Whatever the table, as long as it is strictly decreasing: a request strictly between
  the entries 252 and 251 ends on 251, also when it lies next to entry 252. The search
  visits 128, 192, 224, 240, 248, 252, 250 and stops on 251 = 250 + 1.
\<close>

lemma FindClosestVID_between_252_251:
  assumes d: "strictly_decreasing tbl" and lo: "tbl 252 < v" and hi: "v < tbl 251"
  shows "FindClosestVIDToVoltage tbl v = 251"
proof -
  have l: "\<And>i. i < 251 \<Longrightarrow> v < tbl i"
    using strictly_decreasing_less [OF d, of _ 251] hi by fastforce
  have "tbl 255 < tbl 252"
    using strictly_decreasing_less [OF d, of 252 255] by simp
  then have n255: "\<not> v \<le> tbl 255" using lo by simp
  have n0: "\<not> tbl 0 \<le> v" using l [of 0] by simp
  have s: "v < tbl 128" "v < tbl 192" "v < tbl 224" "v < tbl 240" "v < tbl 248" "v < tbl 250"
    using l by simp_all
  show ?thesis
    using n255 n0 s lo hi
    by (simp add: FindClosestVIDToVoltage_def vid_search.simps)
qed

text \<open>
  Claim C1. \<^verbatim>\<open>setVoltage(778, 0)\<close> passes the band check (500 < 778 \<le> 920) and calls
  \<^verbatim>\<open>FindClosestVIDToVoltage((double)778 / 1000.0)\<close>. The request lies strictly between
  the table's entries 255 and 0, the search returns wiper code 251, and entry 252 is
  closer to the request than entry 251 is: the returned index does not minimise the
  distance to the requested voltage, although the function's comment says it returns
  the VID which will yield the voltage closest to the value requested.
\<close>

theorem FindClosestVID_778mV_not_closest:
  "FindClosestVIDToVoltage InitVoltageTbl (fl (778 / 1000)) = 251
   \<and> InitVoltageTbl 255 < fl (778 / 1000) \<and> fl (778 / 1000) < InitVoltageTbl 0
   \<and> \<bar>InitVoltageTbl 252 - fl (778 / 1000)\<bar> < \<bar>InitVoltageTbl 251 - fl (778 / 1000)\<bar>"
  by (simp add: FindClosestVIDToVoltage_def InitVoltageTbl_def vid_search.simps fl_eval)

section \<open>The reciprocal of the item count\<close>

lemma trace_wr: "trace (wr e v a vf s) = trace s @ [Write32 v a vf]"
  by (simp add: wr_def SQRLAXIWrite_def emit_def)

lemma trace_program_mining_parameters:
  "trace (program_mining_parameters e ctx s)
     = trace s @ [Write32 (nItems_of ctx) 0x5040 True,
                  Write32 (intR (junk e (trace s @ [Write32 (nItems_of ctx) 0x5040 True]) 0)
                             (nItems_of ctx)) 0x5088 True]"
  by (simp add: program_mining_parameters_def Let_def trace_wr)

text \<open>
  The rounding of \<^verbatim>\<open>1.0/(double)nItems\<close> shows in the result: for 3 items the register
  receives 1431655764, one less than the low 32 bits of \<open>floor(2^60 / 3) >> 4\<close>.
\<close>

lemma intR_3: "intR j 3 = 1431655764"
  by (simp add: intR_def to_unsigned_def trunc_def fl_eval)

lemma recip_3: "(word_of_nat (drop_bit 4 ((2::nat) ^ 60 div 3)) :: u32) = 1431655765"
  by (simp add: drop_bit_eq_div)

text \<open>
  Claim C8, as stated, at an item count of 1 (a DAG of 128 bytes): the two writes are
  1 to 0x5040 and 0 to 0x5088, while \<open>floor(2^60 / 1) >> 4\<close> is \<open>2^56\<close>. The register
  and \<^verbatim>\<open>intR\<close> have 32 bits.
\<close>

theorem reciprocal_one_counterexample:
  "trace (program_mining_parameters (const_env 0) (ctx_of 0 128) miner0)
     = [Write32 1 0x5040 True, Write32 0 0x5088 True]
   \<and> drop_bit 4 ((2::nat) ^ 60 div 1) = 2 ^ 56
   \<and> unat (0 :: u32) \<noteq> 2 ^ 56"
  by (simp add: trace_program_mining_parameters nItems_of_def ctx_of_def miner0_def
        intR_def to_unsigned_def trunc_def fl_eval drop_bit_eq_div)

text \<open>
  Claim C8, amended: the value written to 0x5088 is \<^verbatim>\<open>intR\<close> of the item count written
  to 0x5040 just before, whatever the environment and the state; for the item counts 1,
  7, 123456 and \<open>2^20\<close> it is the low 32 bits of \<open>floor(2^60 / itemCount) >> 4\<close>, that
  is 0, 613566756, 3849662236 and 0.
\<close>

theorem reciprocal_low_32_bits:
  "trace (program_mining_parameters e ctx s)
     = trace s @ [Write32 (nItems_of ctx) 0x5040 True,
                  Write32 (intR (junk e (trace s @ [Write32 (nItems_of ctx) 0x5040 True]) 0)
                             (nItems_of ctx)) 0x5088 True]
   \<and> intR j 1 = word_of_nat (drop_bit 4 (2 ^ 60 div 1)) \<and> intR j 1 = 0
   \<and> intR j 7 = word_of_nat (drop_bit 4 (2 ^ 60 div 7)) \<and> intR j 7 = 613566756
   \<and> intR j 123456 = word_of_nat (drop_bit 4 (2 ^ 60 div 123456)) \<and> intR j 123456 = 3849662236
   \<and> intR j (2 ^ 20) = word_of_nat (drop_bit 4 (2 ^ 60 div 2 ^ 20)) \<and> intR j (2 ^ 20) = 0"
proof -
  have 1: "intR j 1 = 0"
    by (simp add: intR_def to_unsigned_def trunc_def fl_eval)
  have 7: "intR j 7 = 613566756"
    by (simp add: intR_def to_unsigned_def trunc_def fl_eval)
  have 123456: "intR j 123456 = 3849662236"
    by (simp add: intR_def to_unsigned_def trunc_def fl_eval)
  have 20: "intR j (2 ^ 20) = 0"
    by (simp add: intR_def to_unsigned_def trunc_def fl_eval)
  have w: "(word_of_nat (drop_bit 4 ((2::nat) ^ 60 div 1)) :: u32) = 0"
    "(word_of_nat (drop_bit 4 ((2::nat) ^ 60 div 7)) :: u32) = 613566756"
    "(word_of_nat (drop_bit 4 ((2::nat) ^ 60 div 123456)) :: u32) = 3849662236"
    "(word_of_nat (drop_bit 4 ((2::nat) ^ 60 div 2 ^ 20)) :: u32) = 0"
    by (simp_all add: drop_bit_eq_div)
  show ?thesis
    by (simp only: trace_program_mining_parameters 1 7 123456 20 w simp_thms)
qed

section \<open>The partition of the DAG items among the mixers\<close>

lemma mixer_ranges_nat:
  assumes "unat msize = q" "unat lo = r"
    and "p + m * q + (if k = 0 then r else 0) < 2 ^ 32" and "k + m < 2 ^ 32"
    and "unat i = k" "unat dagPos = p"
  shows "map (\<lambda>(a, b). (unat a, unat b)) (mixer_ranges msize lo m i dagPos)
         = ranges_nat q r m k p"
  using assms(3-)
proof (induction m arbitrary: i dagPos k p)
  case 0
  then show ?case by simp
next
  case (Suc m)
  have i0: "(i = 0) = (k = 0)"
    using Suc.prems(3) by (auto simp: unat_eq_0)
  have k1: "unat (i + 1) = Suc k"
    using Suc.prems(2,3) by (simp add: unat_word_ariths)
  have e1: "unat (dagPos + msize) = p + q"
    using Suc.prems(1,4) assms(1) by (simp add: unat_word_ariths)
  show ?case
  proof (cases "k = 0")
    case True
    have e2: "unat (dagPos + msize + lo) = p + q + r"
      using Suc.prems(1,4) assms(1,2) True by (simp add: unat_word_ariths)
    have "map (\<lambda>(a, b). (unat a, unat b)) (mixer_ranges msize lo m (i + 1) (dagPos + msize + lo))
          = ranges_nat q r m (Suc k) (p + q + r)"
      using Suc.prems True by (intro Suc.IH) (simp_all add: k1 e2)
    then show ?thesis
      using True i0 Suc.prems(4) e2 by (simp add: Let_def)
  next
    case False
    have "map (\<lambda>(a, b). (unat a, unat b)) (mixer_ranges msize lo m (i + 1) (dagPos + msize))
          = ranges_nat q r m (Suc k) (p + q)"
      using Suc.prems False by (intro Suc.IH) (simp_all add: k1 e1)
    then show ?thesis
      using False i0 Suc.prems(4) e1 by (simp add: Let_def)
  qed
qed

lemma unat_ucast_32_64: "unat (ucast (x :: u32) :: u64) = unat x"
proof -
  have "unat x < 2 ^ 32" using unsigned_less [of x, where 'a = nat] by simp
  then have "unat x < 2 ^ 64" by simp
  then show ?thesis by (simp add: unsigned_ucast_eq take_bit_nat_eq_self)
qed

lemma unat_ucast_64_32: "unat (x :: u64) < 2 ^ 32 \<Longrightarrow> unat (ucast x :: u32) = unat x"
  by (simp add: unsigned_ucast_eq take_bit_nat_eq_self)

lemma unat_mixer_size:
  assumes "unat (ds div 64) < 2 ^ 32"
  shows "unat (mixer_size ds nm) = unat (ds div 64) div unat nm"
proof -
  have a: "unat ((ds div 64) div ucast nm) = unat (ds div 64) div unat nm"
    by (simp only: unat_div unat_ucast_32_64)
  have "unat (ds div 64) div unat nm \<le> unat (ds div 64)"
    by (rule div_le_dividend)
  with assms have "unat (ds div 64) div unat nm < 2 ^ 32"
    by (rule le_less_trans [rotated])
  with a have "unat ((ds div 64) div ucast nm) < 2 ^ 32" by simp
  then show ?thesis
    unfolding mixer_size_def using a by (simp only: unat_ucast_64_32)
qed

lemma unat_leftover:
  assumes "unat (ds div 64) < 2 ^ 32"
  shows "unat (leftover ds nm) = unat (ds div 64) mod unat nm"
proof -
  define D where "D = unat (ds div 64)"
  define n where "n = unat nm"
  have D: "D < 2 ^ 32" using assms by (simp add: D_def)
  have ms: "unat (mixer_size ds nm) = D div n"
    using unat_mixer_size [OF assms] by (simp add: D_def n_def)
  have le: "D div n * n \<le> D" by simp
  have "unat (mixer_size ds nm * nm) = (D div n * n) mod 2 ^ 32"
    by (simp add: unat_word_ariths ms n_def)
  also have "\<dots> = D div n * n"
    using le D by (intro mod_less) (rule le_less_trans)
  finally have m: "unat (mixer_size ds nm * nm) = D div n * n" .
  have u: "unat (ucast (mixer_size ds nm * nm) :: u64) = D div n * n"
    using m by (simp only: unat_ucast_32_64)
  have "ucast (mixer_size ds nm * nm) \<le> ds div 64"
    using u le by (simp add: word_le_nat_alt D_def)
  then have "unat (ds div 64 - ucast (mixer_size ds nm * nm)) = D - D div n * n"
    using u by (simp add: unat_sub D_def)
  also have "\<dots> = D mod n"
    by (simp add: minus_div_mult_eq_mod)
  finally have f: "unat (ds div 64 - ucast (mixer_size ds nm * nm)) = D mod n" .
  have "D mod n \<le> D" by (rule mod_less_eq_dividend)
  with D have "D mod n < 2 ^ 32" by (rule le_less_trans [rotated])
  with f have "unat (ds div 64 - ucast (mixer_size ds nm * nm)) < 2 ^ 32" by simp
  then show ?thesis
    unfolding leftover_def using f by (simp only: unat_ucast_64_32 D_def n_def)
qed


lemma length_ranges_nat: "length (ranges_nat q r m k p) = m"
  by (induction m arbitrary: k p) simp_all

lemma nth_ranges_nat:
  "j < m \<Longrightarrow> ranges_nat q r m k p ! j
     = (p + j * q + (if k = 0 \<and> 0 < j then r else 0), p + Suc j * q + (if k = 0 then r else 0))"
proof (induction m arbitrary: j k p)
  case 0
  then show ?case by simp
next
  case (Suc m)
  show ?case
  proof (cases j)
    case 0
    then show ?thesis by simp
  next
    case (Suc j')
    with Suc.prems have "j' < m" by simp
    from Suc.IH [OF this] Suc show ?thesis by simp
  qed
qed

lemma sum_ranges_nat:
  "sum_list (map (\<lambda>(a, b). b - a) (ranges_nat q r m k p))
     = m * q + (if k = 0 \<and> 0 < m then r else 0)"
  by (induction m arbitrary: k p) simp_all

lemma trace_program_mixers:
  "trace (program_mixers e rs i s) = trace s @ mixer_writes rs i"
  by (induction rs arbitrary: i s) (auto simp: trace_wr)

text \<open>
  Claim C9, as stated, for a DAG of \<open>2^38\<close> bytes and one mixer: \<open>dagSize/64\<close> is
  \<open>2^32\<close> items, \<^verbatim>\<open>mixer_size\<close> and \<^verbatim>\<open>leftover\<close> are 0 after the conversion to
  \<^verbatim>\<open>uint32_t\<close>, the only range is empty and the lengths do not sum to the item count.
\<close>

theorem mixer_partition_counterexample:
  "mixer_ranges (mixer_size (2 ^ 38) 1) (leftover (2 ^ 38) 1) (unat (1 :: u32)) 0 0 = [(0, 0)]
   \<and> (\<Sum>(a, b)\<leftarrow>mixer_ranges (mixer_size (2 ^ 38) 1) (leftover (2 ^ 38) 1) (unat (1 :: u32)) 0 0.
         unat b - unat a) \<noteq> unat ((2 ^ 38 :: u64) div 64)"
  by (simp add: mixer_size_def leftover_def)

text \<open>
  Claim C9, amended: when the item count \<open>dagSize/64\<close> is below \<open>2^32\<close> and there is
  at least one mixer, the ranges computed by the loop (and written by
  \<^verbatim>\<open>program_mixers\<close>, see \<open>trace_program_mixers\<close>) are as many as there are mixers, the
  first starts at 0, each next one starts where the one before ends, none ends before
  it starts, the last ends at the item count, the lengths sum to the item count, every
  mixer but mixer 0 gets \<open>dagItems div n\<close> items and mixer 0 gets \<open>dagItems mod n\<close> more.
\<close>

theorem mixer_partition:
  assumes fits: "unat (dagSize ctx div 64) < 2 ^ 32" and nz: "dagMixers cfg \<noteq> 0"
  shows "let dagItems = unat (dagSize ctx div 64);
             n = unat (dagMixers cfg);
             rs = mixer_ranges (mixer_size (dagSize ctx) (dagMixers cfg))
                    (leftover (dagSize ctx) (dagMixers cfg)) n 0 0
         in length rs = n
          \<and> fst (rs ! 0) = 0
          \<and> (\<forall>j. Suc j < n \<longrightarrow> fst (rs ! Suc j) = snd (rs ! j))
          \<and> (\<forall>j<n. fst (rs ! j) \<le> snd (rs ! j))
          \<and> snd (rs ! (n - 1)) = word_of_nat dagItems
          \<and> (\<Sum>(a, b)\<leftarrow>rs. unat b - unat a) = dagItems
          \<and> (\<forall>j. 0 < j \<and> j < n \<longrightarrow> unat (snd (rs ! j)) - unat (fst (rs ! j)) = dagItems div n)
          \<and> unat (snd (rs ! 0)) - unat (fst (rs ! 0)) = dagItems div n + dagItems mod n"
proof -
  define D where "D = unat (dagSize ctx div 64)"
  define n where "n = unat (dagMixers cfg)"
  define q where "q = D div n"
  define r where "r = D mod n"
  define rs where "rs = mixer_ranges (mixer_size (dagSize ctx) (dagMixers cfg))
                    (leftover (dagSize ctx) (dagMixers cfg)) n 0 0"
  have n0: "0 < n" using nz by (simp add: n_def unat_gt_0)
  have D: "D < 2 ^ 32" using fits by (simp add: D_def)
  have Deq: "n * q + r = D" by (simp add: q_def r_def)
  have uq: "unat (mixer_size (dagSize ctx) (dagMixers cfg)) = q"
    using unat_mixer_size [OF fits] by (simp add: q_def D_def n_def)
  have ur: "unat (leftover (dagSize ctx) (dagMixers cfg)) = r"
    using unat_leftover [OF fits] by (simp add: r_def D_def n_def)
  have nb: "n < 2 ^ 32" using unsigned_less [of "dagMixers cfg", where 'a = nat] by (simp add: n_def)
  have m: "map (\<lambda>(a, b). (unat a, unat b)) rs = ranges_nat q r n 0 0"
    unfolding rs_def
    using D Deq nb by (intro mixer_ranges_nat [OF uq ur]) simp_all
  have len: "length rs = n"
    using arg_cong [OF m, of length] by (simp add: length_ranges_nat)
  have nth: "(unat (fst (rs ! j)), unat (snd (rs ! j)))
               = (j * q + (if 0 < j then r else 0), Suc j * q + r)" if "j < n" for j
  proof -
    have "map (\<lambda>(a, b). (unat a, unat b)) rs ! j = ranges_nat q r n 0 0 ! j"
      by (simp only: m)
    then show ?thesis
      using that len by (simp add: nth_ranges_nat split_def)
  qed
  have first: "unat (fst (rs ! 0)) = 0" "unat (snd (rs ! 0)) = q + r"
    using nth [OF n0] by simp_all
  have c1: "fst (rs ! 0) = 0"
    using first(1) by (simp add: unat_eq_0)
  have c2: "fst (rs ! Suc j) = snd (rs ! j)" if "Suc j < n" for j
  proof -
    have "unat (fst (rs ! Suc j)) = Suc j * q + r" using nth [OF that] by simp
    moreover have "unat (snd (rs ! j)) = Suc j * q + r" using nth [of j] that by simp
    ultimately show ?thesis by (simp add: word_unat_eq_iff)
  qed
  have c3: "fst (rs ! j) \<le> snd (rs ! j)" if "j < n" for j
    using nth [OF that] by (simp add: word_le_nat_alt)
  have "unat (snd (rs ! (n - 1))) = n * q + r"
    using nth [of "n - 1"] n0 by simp
  then have "unat (snd (rs ! (n - 1))) = D" using Deq by simp
  then have c4: "snd (rs ! (n - 1)) = word_of_nat D"
    by (metis of_nat_unat ucast_id)
  have "(\<Sum>(a, b)\<leftarrow>rs. unat b - unat a)
          = sum_list (map (\<lambda>(a, b). b - a) (map (\<lambda>(a, b). (unat a, unat b)) rs))"
    by (simp add: split_def comp_def)
  also have "\<dots> = D"
    unfolding m using n0 Deq by (simp add: sum_ranges_nat)
  finally have c5: "(\<Sum>(a, b)\<leftarrow>rs. unat b - unat a) = D" .
  have c6: "unat (snd (rs ! j)) - unat (fst (rs ! j)) = q" if "0 < j" "j < n" for j
    using nth [OF that(2)] that(1) by simp
  have c7: "unat (snd (rs ! 0)) - unat (fst (rs ! 0)) = q + r"
    using first by simp
  show ?thesis
    using len c1 c2 c3 c4 c5 c6 c7
    unfolding Let_def D_def [symmetric] n_def [symmetric] rs_def [symmetric] q_def r_def
    by simp
qed


theorem mixer_partition_witness:
  "(let rs = mixer_ranges (mixer_size 640 3) (leftover 640 3) 3 0 0
    in length rs = 3 \<and> fst (rs ! 0) = 0 \<and> snd (rs ! 2) = 10
       \<and> (\<Sum>(a, b)\<leftarrow>rs. unat b - unat a) = 10
       \<and> unat (snd (rs ! 0)) - unat (fst (rs ! 0)) = 4)"
proof -
  have "unat (dagSize (ctx_of 0 640) div 64) < 2 ^ 32" and "dagMixers cfg0 \<noteq> 0"
    by (simp_all add: ctx_of_def cfg0_def)
  from mixer_partition [OF this] show ?thesis
    by (auto simp add: ctx_of_def cfg0_def Let_def)
qed

section \<open>Hashrate averages\<close>





section \<open>The boundary programmed at search entry\<close>

lemma falseTarget_max: "falseTarget bnd = max falseTarget_floor bnd"
  by (auto simp add: falseTarget_def max_def)

lemma h256_data_last: "h256_data x ! 31 = ucast x"
  by (simp add: h256_data_def)

text \<open>
  Claim C6, as stated, for a work package whose boundary is 1: the third event of
  \<^verbatim>\<open>search\<close> writes the bytes of the floor constant to 0x5020; the stricter of the floor
  and the caller's boundary is the caller's boundary 1, and its bytes differ from those
  written in the last byte.
\<close>

theorem search_boundary_counterexample:
  "trace (snd (search_entry (const_env 0) cfg0 wp0 miner0)) ! 2
     = WriteBulk (h256_data falseTarget_floor) 0x5020 True
   \<and> stricter falseTarget_floor (boundary wp0) = 1
   \<and> h256_data falseTarget_floor ! 31 = 0xff
   \<and> h256_data (stricter falseTarget_floor (boundary wp0)) ! 31 = 1"
  by (simp add: search_entry_def Let_def split_def falseTarget_def falseTarget_floor_def
        stricter_def wp0_def SQRLAXIWriteBulk_def SQRLAXIWrite_def wr_def emit_def const_env_def
        miner0_def cfg0_def h256_data_last)

text \<open>
  Claim C6, amended: at search entry the boundary written to 0x5020 is the greater
  number (the less strict) of the constant
  0x0000001fffffffffffffffffffffffffffffffffffffffffffffffffffffffff and the caller's
  boundary: a boundary above the constant is written unchanged, one below it is
  replaced by the constant. The events of the entry are the lock, the header, this
  boundary, the two halves of the start nonce, the control word and, unless the process
  exits on a failed write of the control word, the enable word.
\<close>

theorem search_entry_boundary:
  "let r = search_entry e cfg w s; s' = snd r
   in trace s' = trace s @
        [Lock,
         WriteBulk (h256_data (header w)) 0x5000 True,
         WriteBulk (h256_data (max falseTarget_floor (boundary w))) 0x5020 True,
         Write32 (ucast (drop_bit 32 (startNonce w))) 0x5068 False,
         Write32 (ucast (startNonce w AND 0xFFFFFFFF)) 0x5064 False,
         Write32 (search_flags (patience s') (intensityN s') (intensityD s')) 0x5080 False]
        @ (if fst r = Exited then [] else [Write32 0x00010001 0x506c False])"
  by (simp add: search_entry_def Let_def split_def falseTarget_max
        SQRLAXIWriteBulk_def SQRLAXIWrite_def wr_def emit_def split: option.splits)

section \<open>The divisor programmed by the clock controller\<close>

lemma wait_locked_unfold:
  "wait_locked e n s =
     (if n = 0 then s
      else let ((_, locked), s1) = SQRLAXIRead e 0x8004 s
           in if locked AND 1 \<noteq> 0 then s1 else wait_locked e (n - 1) s1)"
  by (cases n) (simp_all add: split_def Let_def)

lemma pll_vco_0x801: "pll_vco 0x801 = Fin 1600"
  by (simp add: pll_vco_def fl_eval)

lemma adjusted_div_473: "adjusted_div j (desired_div (Fin 1600) (Fin 473)) = 27 / 8"
  by (simp add: desired_div_def adjusted_div_def to_int32_def trunc_def fl_eval)

lemma encode_div_27_8: "encode_div j1 j2 (27 / 8) = 0x17703"
  by (simp add: encode_div_def to_unsigned_def trunc_def fl_eval)

lemma setClock_473_trace:
  "trace (snd (setClock (const_env 0x801) (Fin 473) miner0)) =
   [Read32 0x8200, Read32 0x8208, Read32 0x5040, Read32 0x5088, Read32 0xB000,
    Write32 0xFFFFFFFF 0xB000 True, Write32 0x801 0x8200 True, Write32 0x17703 0x8208 True,
    Write32 0x7 0x825c True, Write32 0x3 0x825c True, Read32 0x8004,
    Write32 0x801 0x5040 True, Write32 0x801 0x5088 True, Write32 0x801 0xB000 True]"
  apply (simp add: setClock_def Let_def split_def SQRLAXIRead_def emit_def const_env_def miner0_def
      setClock_program_def wr_def SQRLAXIWrite_def pll_vco_0x801 adjusted_div_473 encode_div_27_8)
  apply (subst wait_locked_unfold)
  apply (simp add: SQRLAXIRead_def emit_def)
  done

text \<open>
  Claim C7. The PLL register 0x8200 reads 0x801 (multiplier 8, no fraction, divider 1:
  a VCO of 1600 MHz) and \<^verbatim>\<open>setClock(473)\<close> is called. The exact divisor is
  \<open>1600 / 474 = 3.3755...\<close>; eight times it is 27.004..., to which the source adds
  0.99 before it truncates: the divisor becomes \<open>27 / 8 = 3.375\<close>, below the exact one.
  It is not below 2, so it is encoded (3 in the low byte, 375 above it: 0x17703) and
  written to 0x8208, and the core then runs at more than 474 MHz. The comment of the
  source announces a rounding up ("round up == closed without going over").
\<close>

theorem setClock_473_rounds_down:
  "pll_vco 0x801 = Fin 1600
   \<and> adjusted_div j (desired_div (Fin 1600) (Fin 473)) = 27 / 8
   \<and> (27 / 8 :: real) < 1600 / (473 + 1)
   \<and> \<not> (27 / 8 :: real) < 2
   \<and> encode_div j1 j2 (27 / 8) = 0x17703
   \<and> trace (snd (setClock (const_env 0x801) (Fin 473) miner0)) =
       [Read32 0x8200, Read32 0x8208, Read32 0x5040, Read32 0x5088, Read32 0xB000,
        Write32 0xFFFFFFFF 0xB000 True, Write32 0x801 0x8200 True, Write32 0x17703 0x8208 True,
        Write32 0x7 0x825c True, Write32 0x3 0x825c True, Read32 0x8004,
        Write32 0x801 0x5040 True, Write32 0x801 0x5088 True, Write32 0x801 0xB000 True]"
  by (simp only: pll_vco_0x801 adjusted_div_473 encode_div_27_8 setClock_473_trace) simp

section \<open>Histories of the transport calls\<close>

lemma appendsI: "trace s' = trace s @ evs \<Longrightarrow> list_all P evs \<Longrightarrow> appends P s s'"
  by (simp add: appends_def)

lemma appendsE:
  assumes "appends P s s'"
  obtains evs where "trace s' = trace s @ evs" "list_all P evs"
  using assms unfolding appends_def by (metis append_take_drop_id)


lemma appends_trans:
  assumes "appends P s s'" and "appends P s' s''"
  shows "appends P s s''"
proof -
  from assms(1) obtain evs where 1: "trace s' = trace s @ evs" "list_all P evs"
    by (rule appendsE)
  from assms(2) obtain evs' where 2: "trace s'' = trace s' @ evs'" "list_all P evs'"
    by (rule appendsE)
  show ?thesis
    by (rule appendsI [where evs = "evs @ evs'"]) (simp_all add: 1 2)
qed

lemma appends_mono: "appends P s s' \<Longrightarrow> (\<And>ev. P ev \<Longrightarrow> Q ev) \<Longrightarrow> appends Q s s'"
  by (elim appendsE) (rule appendsI, assumption, simp add: list_all_iff)

lemma appends_emit: "P ev \<Longrightarrow> appends P s (emit ev s)"
  by (rule appendsI [where evs = "[ev]"]) (simp_all add: emit_def)

lemma appends_wr: "P (Write32 v a vf) \<Longrightarrow> appends P s (wr e v a vf s)"
  by (rule appendsI [where evs = "[Write32 v a vf]"]) (simp_all add: trace_wr)

lemma appends_Write: "P (Write32 v a vf) \<Longrightarrow> appends P s (snd (SQRLAXIWrite e v a vf s))"
  by (rule appendsI [where evs = "[Write32 v a vf]"]) (simp_all add: SQRLAXIWrite_def emit_def)

lemma appends_Read: "P (Read32 a) \<Longrightarrow> appends P s (snd (SQRLAXIRead e a s))"
  by (rule appendsI [where evs = "[Read32 a]"]) (simp_all add: SQRLAXIRead_def emit_def)





lemma appends_step:
  "appends P s0 s \<Longrightarrow> appends Q s s' \<Longrightarrow> (\<And>ev. Q ev \<Longrightarrow> P ev) \<Longrightarrow> appends P s0 s'"
  by (blast intro: appends_trans appends_mono)

lemma appends_same: "appends P s s"
  by (simp add: appends_def)

lemma appends_cong: "appends P s0 s \<Longrightarrow> trace s' = trace s \<Longrightarrow> appends P s0 s'"
  by (simp add: appends_def)

lemma step_emit: "appends P s0 s \<Longrightarrow> P ev \<Longrightarrow> appends P s0 (emit ev s)"
  by (blast intro: appends_trans appends_emit)

lemma step_wr: "appends P s0 s \<Longrightarrow> P (Write32 v a vf) \<Longrightarrow> appends P s0 (wr e v a vf s)"
  by (blast intro: appends_trans appends_wr)

lemma step_Write:
  "appends P s0 s \<Longrightarrow> P (Write32 v a vf) \<Longrightarrow> appends P s0 (snd (SQRLAXIWrite e v a vf s))"
  by (blast intro: appends_trans appends_Write)

lemma step_Read: "appends P s0 s \<Longrightarrow> P (Read32 a) \<Longrightarrow> appends P s0 (snd (SQRLAXIRead e a s))"
  by (blast intro: appends_trans appends_Read)

lemma step_wait_locked:
  "appends P s0 s \<Longrightarrow> P (Read32 0x8004) \<Longrightarrow> appends P s0 (wait_locked e n s)"
proof (induction n arbitrary: s)
  case 0
  then show ?case by simp
next
  case (Suc n)
  have "appends P s0 (snd (SQRLAXIRead e 0x8004 s))"
    using Suc.prems by (rule step_Read)
  with Suc show ?case
    by (simp add: split_def Let_def)
qed

lemmas step_rules = step_emit step_wr step_Write step_Read step_wait_locked appends_same

lemma appends_update [simp]:
  "appends P s0 (m_lastClk_update f1 s) = appends P s0 s"
  "appends P s0 (m_dagging_update f2 s) = appends P s0 s"
  "appends P s0 (m_new_work_update f3 s) = appends P s0 s"
  "appends P s0 (m_FPGAtemps_update f4 s) = appends P s0 s"
  "appends P s0 (patience_update f5 s) = appends P s0 s"
  "appends P s0 (intensityN_update f6 s) = appends P s0 s"
  "appends P s0 (intensityD_update f7 s) = appends P s0 s"
  "appends P (m_dagging_update f2 s0) s = appends P s0 s"
  "appends P (m_new_work_update f3 s0) s = appends P s0 s"
  "appends P (m_FPGAtemps_update f4 s0) s = appends P s0 s"
  by (simp_all add: appends_def)

lemma setClock_appends: "appends clock_event s (snd (setClock e targetClk s))"
  unfolding setClock_def setClock_program_def setClock_reset_def Let_def split_def
  by (auto intro!: step_rules)

lemma wait_locked_frame:
  "m_dagging (wait_locked e n s) = m_dagging s \<and> m_new_work (wait_locked e n s) = m_new_work s"
  by (induction n arbitrary: s) (simp_all add: split_def Let_def SQRLAXIRead_def emit_def)

lemma setClock_frame:
  "m_dagging (snd (setClock e targetClk s)) = m_dagging s
   \<and> m_new_work (snd (setClock e targetClk s)) = m_new_work s"
  unfolding setClock_def setClock_program_def setClock_reset_def Let_def split_def
  by (simp add: wait_locked_frame wr_def SQRLAXIWrite_def SQRLAXIRead_def emit_def)

section \<open>Telemetry and the emergency stop\<close>



lemma telemetry_read_frame:
  "m_dagging (snd (telemetry_read e s)) = m_dagging s
   \<and> m_new_work (snd (telemetry_read e s)) = m_new_work s"
  unfolding telemetry_read_def getClock_def Let_def split_def
  by (simp add: setClock_frame SQRLAXIRead_def emit_def)






text \<open>
  Claim C4, amended: when the read of the stack health register 0x7008 fails, the word
  decoded is the default 0x3 (both stacks calibrated, no catastrophic temperature), so
  that under a read failure the emergency stop never runs: nothing follows the unlock
  and the device is not marked busy. The hypothesis is about the history up to the last
  event but one of the reading part, which is that read.
\<close>

theorem telemetry_read_failure_default:
  assumes "\<not> fst (rd e (butlast (trace (snd (telemetry_read e s)))))"
  shows "last (butlast (trace (snd (telemetry_read e s)))) = Read32 0x7008
         \<and> snd (fst (telemetry_read e s)) = 0x3
         \<and> trace (snd (getTelemetry e s)) = trace (snd (telemetry_read e s))
         \<and> m_dagging (snd (getTelemetry e s)) = m_dagging s
         \<and> m_new_work (snd (getTelemetry e s)) = m_new_work s"
proof -
  have b: "last (butlast (trace (snd (telemetry_read e s)))) = Read32 0x7008"
    by (simp add: telemetry_read_def Let_def split_def SQRLAXIRead_def emit_def butlast_append)
  have raw: "snd (fst (telemetry_read e s)) = 0x3"
    using assms
    by (simp add: telemetry_read_def Let_def split_def SQRLAXIRead_def emit_def butlast_append)
  have safe: "\<not> leftCatastrophic 3" "\<not> rightCatastrophic 3" "leftCalibrated 3" "rightCalibrated 3"
    by (simp_all add: leftCatastrophic_def rightCatastrophic_def leftCalibrated_def
          rightCalibrated_def)
  show ?thesis
    using b raw safe telemetry_read_frame [of e s]
    by (simp add: getTelemetry_def telemetry_decode_def Let_def split_def)
qed

text \<open>
  Claim C4, as stated, for a device none of whose reads succeeds: the state of the
  stacks is unknown, the read of 0x7008 fails, and \<^verbatim>\<open>getTelemetry\<close> ends with the unlock;
  no halt, no power down, \<^verbatim>\<open>m_dagging\<close> stays clear. The default assumes the stacks are
  safe ("Force calibrated if comms fail", says the source).
\<close>

theorem telemetry_read_failure_counterexample:
  "\<not> fst (rd dead_env [Lock, Read32 0x3400, Read32 0x8200, Read32 0x3404, Read32 0x7008])
   \<and> trace (snd (getTelemetry dead_env miner0))
       = [Lock, Read32 0x3400, Read32 0x8200, Read32 0x3404, Read32 0x7008, Unlock]
   \<and> \<not> m_dagging (snd (getTelemetry dead_env miner0))
   \<and> \<not> m_new_work (snd (getTelemetry dead_env miner0))"
  by (simp add: getTelemetry_def telemetry_decode_def telemetry_read_def getClock_def setClock_def
        Let_def split_def SQRLAXIRead_def emit_def dead_env_def const_env_def miner0_def
        leftCatastrophic_def rightCatastrophic_def leftCalibrated_def rightCalibrated_def)

theorem telemetry_read_failure_default_witness:
  "snd (fst (telemetry_read dead_env miner0)) = 0x3
   \<and> trace (snd (getTelemetry dead_env miner0)) = trace (snd (telemetry_read dead_env miner0))"
proof -
  have "\<not> fst (rd dead_env (butlast (trace (snd (telemetry_read dead_env miner0)))))"
    by (simp add: dead_env_def const_env_def)
  from telemetry_read_failure_default [OF this] show ?thesis
    by simp
qed

section \<open>Epoch change: the early return\<close>








lemma wait_locked_lastClk: "m_lastClk (wait_locked e n s) = m_lastClk s"
  by (induction n arbitrary: s) (simp_all add: split_def Let_def SQRLAXIRead_def emit_def)






text \<open>
  The other way round: whenever the generation returns, by whatever exit, its history
  holds the first write of the light cache build.
\<close>

lemma prefix_step:
  assumes "take (length (tr @ evs)) tr' = tr @ evs"
  shows "take (length tr) tr' = tr"
proof -
  have "take (length tr) tr' = take (length tr) (take (length (tr @ evs)) tr')"
    by (simp add: min_def)
  also have "\<dots> = tr"
    by (simp only: assms) simp
  finally show ?thesis .
qed

lemma wait_cache_extends:
  assumes "wait_cache e cfg c s = Some y"
  shows "take (length (trace s)) (trace (snd y)) = trace s"
  using assms
proof (induction rule: wait_cache.raw_induct [rotated 1, consumes 1])
  case (1 f e cfg c s y)
  show ?case
  proof (cases "c AND 2 = 2")
    case True
    with 1(2) show ?thesis by auto
  next
    case False
    define s1 where "s1 = emit Lock (emit (Sleep 100000) (emit Unlock s))"
    define rr where "rr = SQRLAXIRead e 0x40BC s1"
    have t2: "trace (snd rr) = trace s @ [Unlock, Sleep 100000, Lock, Read32 0x40BC]"
      by (simp add: rr_def s1_def SQRLAXIRead_def emit_def)
    show ?thesis
    proof (cases "\<not> fst (fst rr) \<and> dieOnError cfg")
      case True
      with 1(2) False have "snd y = snd rr"
        by (auto simp add: Let_def split_def rr_def s1_def)
      then show ?thesis by (simp add: t2)
    next
      case nd: False
      with 1(2) False
      have "f e cfg (if fst (fst rr) then snd (fst rr) else c) (snd rr) = Some y"
        by (auto simp add: Let_def split_def rr_def s1_def)
      from 1(1) [OF this] have "take (length (trace (snd rr))) (trace (snd y)) = trace (snd rr)" .
      then show ?thesis
        unfolding t2 by (rule prefix_step)
    qed
  qed
qed

lemma wait_dag_extends:
  assumes "wait_dag e cfg st cnt s = Some y"
  shows "take (length (trace s)) (trace (snd y)) = trace s"
  using assms
proof (induction rule: wait_dag.raw_induct [rotated 1, consumes 1])
  case (1 f e cfg st cnt s y)
  show ?case
  proof (cases "st AND 2 = 2")
    case True
    with 1(2) show ?thesis by auto
  next
    case False
    define s1 where "s1 = emit Lock (emit (Sleep 1000000) (emit Unlock s))"
    define rr where "rr = SQRLAXIRead e 0x4000 s1"
    define s3 where "s3 = (if unat (cnt + 1) mod 5 = 0 then snd (SQRLAXIRead e 0x4008 (snd rr)) else snd rr)"
    have t2: "trace (snd rr) = trace s @ [Unlock, Sleep 1000000, Lock, Read32 0x4000]"
      by (simp add: rr_def s1_def SQRLAXIRead_def emit_def)
    have t3: "trace s3 = trace s @ ([Unlock, Sleep 1000000, Lock, Read32 0x4000]
                @ (if unat (cnt + 1) mod 5 = 0 then [Read32 0x4008] else []))"
      by (simp add: s3_def t2 SQRLAXIRead_def emit_def)
    show ?thesis
    proof (cases "\<not> fst (fst rr) \<and> dieOnError cfg")
      case True
      with 1(2) False have "snd y = snd rr"
        by (auto simp add: Let_def split_def rr_def s1_def)
      then show ?thesis by (simp add: t2)
    next
      case nd: False
      with 1(2) False
      have "f e cfg (if fst (fst rr) then snd (fst rr) else st) (cnt + 1) s3 = Some y"
        by (auto simp add: Let_def split_def rr_def s1_def s3_def)
      from 1(1) [OF this] have "take (length (trace s3)) (trace (snd y)) = trace s3" .
      then show ?thesis
        unfolding t3 by (rule prefix_step)
    qed
  qed
qed

lemma appends_any: "appends (\<lambda>_. True) s s' = (take (length (trace s)) (trace s') = trace s)"
  by (simp add: appends_def list_all_iff)

lemma appends_member: "appends P s s' \<Longrightarrow> ev \<in> set (trace s) \<Longrightarrow> ev \<in> set (trace s')"
  by (erule appendsE) simp

lemma appends_any_trace:
  assumes "appends (\<lambda>_. True) s0 s" and "trace s' = trace s @ evs"
  shows "appends (\<lambda>_. True) s0 s'"
proof -
  have "appends (\<lambda>_. True) s s'"
    using assms(2) by (rule appendsI) (simp add: list_all_iff)
  with assms(1) show ?thesis by (rule appends_trans)
qed

lemma step_any_Copy:
  "appends (\<lambda>_. True) s0 s \<Longrightarrow> appends (\<lambda>_. True) s0 (snd (SQRLAXICDMACopyBytes e a b c s))"
  by (erule appends_any_trace [where evs = "[CDMACopyBytes a b c]"])
    (simp add: SQRLAXICDMACopyBytes_def emit_def)

lemma step_swizzle:
  "appends (\<lambda>_. True) s0 s \<Longrightarrow> appends (\<lambda>_. True) s0 (snd (swizzle e n i s))"
proof (induction n arbitrary: i s)
  case 0
  then show ?case by simp
next
  case (Suc n)
  have "appends (\<lambda>_. True) s0 (snd (SQRLAXICDMACopyBytes e (0x100000000 OR push_bit 24 i)
          (push_bit 24 (push_bit 4 (i AND 0x0f) OR drop_bit 4 (i AND 0xF0))) 0x1000000 s))"
    using Suc.prems by (rule step_any_Copy)
  from Suc.IH [OF this] this show ?case
    by (simp add: split_def Let_def)
qed

lemma step_any_setClock:
  "appends (\<lambda>_. True) s0 s \<Longrightarrow> appends (\<lambda>_. True) s0 (snd (setClock e t s))"
  by (erule appends_step [OF _ setClock_appends]) simp

lemma step_any_mixers:
  "appends (\<lambda>_. True) s0 s \<Longrightarrow> appends (\<lambda>_. True) s0 (program_mixers e rs i s)"
  by (erule appends_any_trace) (rule trace_program_mixers)

lemma finish_appends: "appends (\<lambda>_. True) s (initEpoch_finish e ctx s)"
  unfolding initEpoch_finish_def Let_def split_def
  by (auto intro!: step_rules step_any_setClock step_any_Copy step_swizzle)

lemma generate_builds_cache:
  assumes "initEpoch_generate e cfg ctx s = Some y"
  shows "Write32 0x2 0x40BC True \<in> set (trace (snd y))"
proof -
  define s3 where "s3 = snd (if dbl_less (fst (getClock e (wr e 0xFFFFFFFF 0xB000 True (wr e 0xFFFFFFFD 0xB000 True s))))
                     (m_lastClk (snd (getClock e (wr e 0xFFFFFFFF 0xB000 True (wr e 0xFFFFFFFD 0xB000 True s)))))
        then setClock e (Fin (- 2)) (snd (getClock e (wr e 0xFFFFFFFF 0xB000 True (wr e 0xFFFFFFFD 0xB000 True s))))
        else setClock e (m_lastClk (snd (getClock e (wr e 0xFFFFFFFF 0xB000 True (wr e 0xFFFFFFFD 0xB000 True s)))))
               (snd (getClock e (wr e 0xFFFFFFFF 0xB000 True (wr e 0xFFFFFFFD 0xB000 True s)))))"
  define s6 where "s6 = wr e 0x1 0x40BC True (snd (SQRLAXIWriteBulk e
       (map (\<lambda>k. h256_data (seed ctx) ! (31 - k)) [0..<32]) 0x40c0 True
       (wr e (ucast (lightSize ctx div 64)) 0x4008 True (wr e 0x2 0x40BC True s3))))"
  have m6: "Write32 0x2 0x40BC True \<in> set (trace s6)"
    by (simp add: s6_def trace_wr SQRLAXIWriteBulk_def emit_def)
  have g: "initEpoch_generate e cfg ctx s =
    (case wait_cache e cfg 0 s6 of
           None \<Rightarrow> None
         | Some (Exited, s7) \<Rightarrow> Some (Exited, s7)
         | Some (Trapped, s7) \<Rightarrow> Some (Trapped, s7)
         | Some (Done _, s7) \<Rightarrow>
             if dagMixers cfg = 0 then Some (Trapped, s7)
             else
               let s11 = snd (SQRLAXIRead e 0x4000 (wr e 0x1 0x4000 True
                     (program_mixers e (mixer_ranges (mixer_size (dagSize ctx) (dagMixers cfg))
                        (leftover (dagSize ctx) (dagMixers cfg)) (unat (dagMixers cfg)) 0 0) 0
                        (wr e (ucast (lightSize ctx div 64)) 0x4008 True s7))));
                   status = snd (fst (SQRLAXIRead e 0x4000 (wr e 0x1 0x4000 True
                     (program_mixers e (mixer_ranges (mixer_size (dagSize ctx) (dagMixers cfg))
                        (leftover (dagSize ctx) (dagMixers cfg)) (unat (dagMixers cfg)) 0 0) 0
                        (wr e (ucast (lightSize ctx div 64)) 0x4008 True s7)))))
               in case (if \<not> skipDAG cfg then wait_dag e cfg status 0 s11
                        else Some (Done (), s11)) of
                    None \<Rightarrow> None
                  | Some (Exited, s12) \<Rightarrow> Some (Exited, s12)
                  | Some (Trapped, s12) \<Rightarrow> Some (Trapped, s12)
                  | Some (Done _, s12) \<Rightarrow> Some (Done True, initEpoch_finish e ctx s12))"
    unfolding initEpoch_generate_def Let_def split_def s6_def s3_def by simp
  obtain r7 s7 where w: "wait_cache e cfg 0 s6 = Some (r7, s7)"
    using assms unfolding g by (cases "wait_cache e cfg 0 s6") auto
  have a7: "appends (\<lambda>_. True) s6 s7"
    using wait_cache_extends [OF w] by (simp add: appends_any)
  show ?thesis
  proof (cases r7)
    case Exited
    with assms w have "snd y = s7" unfolding g by auto
    with a7 m6 show ?thesis by (auto intro: appends_member)
  next
    case Trapped
    with assms w have "snd y = s7" unfolding g by auto
    with a7 m6 show ?thesis by (auto intro: appends_member)
  next
    case (Done u)
    show ?thesis
    proof (cases "dagMixers cfg = 0")
      case True
      with assms w Done have "snd y = s7" unfolding g by auto
      with a7 m6 show ?thesis by (auto intro: appends_member)
    next
      case False
      define s11 where "s11 = snd (SQRLAXIRead e 0x4000 (wr e 0x1 0x4000 True
                     (program_mixers e (mixer_ranges (mixer_size (dagSize ctx) (dagMixers cfg))
                        (leftover (dagSize ctx) (dagMixers cfg)) (unat (dagMixers cfg)) 0 0) 0
                        (wr e (ucast (lightSize ctx div 64)) 0x4008 True s7))))"
      define status where "status = snd (fst (SQRLAXIRead e 0x4000 (wr e 0x1 0x4000 True
                     (program_mixers e (mixer_ranges (mixer_size (dagSize ctx) (dagMixers cfg))
                        (leftover (dagSize ctx) (dagMixers cfg)) (unat (dagMixers cfg)) 0 0) 0
                        (wr e (ucast (lightSize ctx div 64)) 0x4008 True s7)))))"
      have a11: "appends (\<lambda>_. True) s7 s11"
        unfolding s11_def by (auto intro!: step_rules step_any_mixers)
      define wd where "wd = (if \<not> skipDAG cfg then wait_dag e cfg status 0 s11 else Some (Done (), s11))"
      have g2: "(case wd of None \<Rightarrow> None
                  | Some (Exited, s12) \<Rightarrow> Some (Exited, s12)
                  | Some (Trapped, s12) \<Rightarrow> Some (Trapped, s12)
                  | Some (Done _, s12) \<Rightarrow> Some (Done True, initEpoch_finish e ctx s12)) = Some y"
        using assms w Done False unfolding g wd_def s11_def status_def
        by (simp add: Let_def)
      then obtain r12 s12 where w2: "wd = Some (r12, s12)"
        by (cases wd) auto
      have a12: "appends (\<lambda>_. True) s11 s12"
      proof (cases "skipDAG cfg")
        case True
        with w2 show ?thesis by (simp add: wd_def appends_same)
      next
        case False
        with w2 have "wait_dag e cfg status 0 s11 = Some (r12, s12)" by (simp add: wd_def)
        from wait_dag_extends [OF this] show ?thesis by (simp add: appends_any)
      qed
      have a: "appends (\<lambda>_. True) s6 s12"
        using a7 a11 a12 by (blast intro: appends_trans)
      have "appends (\<lambda>_. True) s6 (snd y)"
      proof (cases r12)
        case (Done u')
        with g2 w2 have "snd y = initEpoch_finish e ctx s12" by auto
        with a finish_appends [of s12 e ctx] show ?thesis by (auto intro: appends_trans)
      next
        case Exited
        with g2 w2 have "snd y = s12" by auto
        with a show ?thesis by simp
      next
        case Trapped
        with g2 w2 have "snd y = s12" by auto
        with a show ?thesis by simp
      qed
      then show ?thesis using m6 by (rule appends_member)
    qed
  qed
qed

lemma drop_bit_31_zero:
  assumes "\<not> bit (w :: u32) 31"
  shows "drop_bit 31 w = 0"
proof (rule bit_eqI)
  fix n
  have "\<not> bit w (31 + n)"
  proof (cases n)
    case 0
    with assms show ?thesis by simp
  next
    case (Suc m)
    show ?thesis
    proof
      assume "bit w (31 + n)"
      then have "31 + n < LENGTH(32)" by (rule bit_imp_le_length)
      with Suc show False by simp
    qed
  qed
  then show "bit (drop_bit 31 w) n = bit (0 :: u32) n"
    by (simp add: bit_drop_bit_eq add.commute)
qed

lemma initEpoch_slow_path_generates:
  assumes "\<not> (fst (rd e (trace (initEpoch_prepare e ctx s) @ [Read32 0x40B8]))
              \<and> bit (snd (rd e (trace (initEpoch_prepare e ctx s) @ [Read32 0x40B8]))) 31)"
    and "initEpoch_internal e cfg ctx s = Some y"
  shows "Write32 0x2 0x40BC True \<in> set (trace (snd y)) \<and> generation_write (Write32 0x2 0x40BC True)"
proof -
  define r where "r = SQRLAXIRead e 0x40B8 (initEpoch_prepare e ctx s)"
  have fr: "fst r = rd e (trace (initEpoch_prepare e ctx s) @ [Read32 0x40B8])"
    by (simp add: r_def SQRLAXIRead_def)
  have "drop_bit 31 (if fst (fst r) then snd (fst r) else 0) = 0"
  proof (cases "fst (fst r)")
    case True
    with assms(1) fr have "\<not> bit (snd (fst r)) 31" by simp
    then have "drop_bit 31 (snd (fst r)) = 0"
      by (rule drop_bit_31_zero)
    with True show ?thesis by simp
  next
    case False
    then show ?thesis by simp
  qed
  then have "initEpoch_internal e cfg ctx s = initEpoch_generate e cfg ctx (snd r)"
    unfolding initEpoch_internal_def Let_def split_def r_def [symmetric] by simp
  with assms(2) have "initEpoch_generate e cfg ctx (snd r) = Some y" by simp
  from generate_builds_cache [OF this] show ?thesis by simp
qed


section \<open>Stall detection in the search loop\<close>

lemma trace_processHashrateAverages: "trace (processHashrateAverages e n s) = trace s"
  by (simp add: processHashrateAverages_def Let_def)









section \<open>The busy flag and the search\<close>

text \<open>
  \<^verbatim>\<open>m_dagging\<close> is written at lines 486, 525, 610, 703 and 1185 and read at line 732
  only, in \<^verbatim>\<open>kick_miner\<close>. The entry of \<^verbatim>\<open>search\<close> reads four fields of the miner: the
  history and the three tuning values. Its outcome and the events it adds are the same
  for two miners that agree on these.
\<close>

lemma search_entry_reads:
  assumes "trace s' = trace s" "patience s' = patience s" "intensityN s' = intensityN s"
    "intensityD s' = intensityD s"
  shows "fst (search_entry e cfg w s') = fst (search_entry e cfg w s)
   \<and> trace (snd (search_entry e cfg w s')) = trace (snd (search_entry e cfg w s))"
proof -
  define s5 where "s5 t = wr e (ucast (startNonce w AND 0xFFFFFFFF)) 0x5064 False
      (wr e (ucast (drop_bit 32 (startNonce w))) 0x5068 False
        (snd (SQRLAXIWriteBulk e (h256_data (falseTarget (boundary w))) 0x5020 True
          (snd (SQRLAXIWriteBulk e (h256_data (header w)) 0x5000 True
            (emit Lock (t\<lparr>m_new_work := False\<rparr>)))))))" for t
  define s6 where "s6 t = (case tuner_intensity e (trace (s5 t)) of
                  None \<Rightarrow> s5 t
                | Some (p, d, n) \<Rightarrow> (s5 t)\<lparr>patience := p, intensityD := d, intensityN := n\<rparr>)" for t
  have 5: "trace (s5 s') = trace (s5 s)" "patience (s5 s') = patience (s5 s)"
    "intensityN (s5 s') = intensityN (s5 s)" "intensityD (s5 s') = intensityD (s5 s)"
    using assms by (simp_all add: s5_def wr_def SQRLAXIWrite_def SQRLAXIWriteBulk_def emit_def)
  have 6: "trace (s6 s') = trace (s6 s)" "patience (s6 s') = patience (s6 s)"
    "intensityN (s6 s') = intensityN (s6 s)" "intensityD (s6 s') = intensityD (s6 s)"
    using 5 by (simp_all add: s6_def split: option.splits)
  have se: "search_entry e cfg w t =
      (if \<not> fst (SQRLAXIWrite e (search_flags (patience (s6 t)) (intensityN (s6 t)) (intensityD (s6 t)))
                    0x5080 False (s6 t)) \<and> dieOnError cfg
       then (Exited, snd (SQRLAXIWrite e (search_flags (patience (s6 t)) (intensityN (s6 t))
                            (intensityD (s6 t))) 0x5080 False (s6 t)))
       else (Done (), wr e 0x00010001 0x506c False
                        (snd (SQRLAXIWrite e (search_flags (patience (s6 t)) (intensityN (s6 t))
                            (intensityD (s6 t))) 0x5080 False (s6 t)))))" for t
    unfolding search_entry_def s6_def s5_def Let_def split_def by (rule refl)
  show ?thesis
    by (simp add: se SQRLAXIWrite_def wr_def emit_def 6)
qed

lemma search_entry_ignores_busy:
  "fst (search_entry e cfg w (s\<lparr>m_dagging := b\<rparr>)) = fst (search_entry e cfg w s)
   \<and> trace (snd (search_entry e cfg w (s\<lparr>m_dagging := b\<rparr>)))
       = trace (snd (search_entry e cfg w s))"
  by (rule search_entry_reads) simp_all

lemma search_iter_ignores_busy:
  "fst (search_iter e cfg l t (s\<lparr>m_dagging := b\<rparr>)) = fst (search_iter e cfg l t s)
   \<and> trace (snd (search_iter e cfg l t (s\<lparr>m_dagging := b\<rparr>)))
       = trace (snd (search_iter e cfg l t s))"
  unfolding search_iter_def Let_def split_def
  by (simp add: SQRLAXIRead_def emit_def trace_processHashrateAverages split: irq_result.splits)

text \<open>
  An entry that does not exit ends with the write of the enable word 0x00010001 to
  0x506c (line 806) and leaves the flag as it found it.
\<close>

lemma search_entry_enables_core:
  "fst (search_entry e cfg w s) = Done () \<Longrightarrow>
   last (trace (snd (search_entry e cfg w s))) = Write32 0x00010001 0x506c False
   \<and> m_dagging (snd (search_entry e cfg w s)) = m_dagging s"
  by (auto simp add: search_entry_def Let_def split_def SQRLAXIWriteBulk_def SQRLAXIWrite_def wr_def
        emit_def split: option.splits if_splits)






end
